theory Spec2Isabelle
  imports Complex_Main "HOL-Library.Sublist" "HOL-Library.Word"
begin

section \<open>Numbers and vectors\<close>

text \<open>
  The JavaScript sources compute on IEEE numbers held in \<^verbatim>\<open>Float32Array\<close>s. The model
  takes a finite number in exact arithmetic (\<open>Num r\<close>, rounding left out) and keeps
  \<open>NaN\<close>, which is what a read past the end of an array (\<^verbatim>\<open>undefined\<close>) turns every
  sum and product into. Infinities do not arise in exact arithmetic: the only divisions of
  the code are guarded (\<^verbatim>\<open>magnitude === 0\<close>) or divide by an array length of at least 2.
\<close>

datatype jsnum = NaN | Num real

type_synonym vector = "jsnum list"

fun jadd :: "jsnum \<Rightarrow> jsnum \<Rightarrow> jsnum" where
  "jadd (Num a) (Num b) = Num (a + b)"
| "jadd _ _ = NaN"

fun jmul :: "jsnum \<Rightarrow> jsnum \<Rightarrow> jsnum" where
  "jmul (Num a) (Num b) = Num (a * b)"
| "jmul _ _ = NaN"

fun jdiv :: "jsnum \<Rightarrow> jsnum \<Rightarrow> jsnum" where
  "jdiv (Num a) (Num b) = (if b = 0 then NaN else Num (a / b))"
| "jdiv _ _ = NaN"

fun jsqrt :: "jsnum \<Rightarrow> jsnum" where
  "jsqrt (Num a) = (if a < 0 then NaN else Num (sqrt a))"
| "jsqrt NaN = NaN"

fun jneg :: "jsnum \<Rightarrow> jsnum" where
  "jneg (Num a) = Num (- a)"
| "jneg NaN = NaN"

text \<open>\<^verbatim>\<open>v[i]\<close> on a typed array: \<^verbatim>\<open>undefined\<close> past the end, which arithmetic reads as NaN.\<close>

definition vec_at :: "vector \<Rightarrow> nat \<Rightarrow> jsnum" where
  "vec_at v i = (if i < length v then v ! i else NaN)"

subsection \<open>\<^verbatim>\<open>cosineSimilarity\<close> of the memory manager\<close>

text \<open>
  \<^verbatim>\<open>
  cosineSimilarity(vecA, vecB) {
    if (vecA.length !== vecB.length || vecA.length !== 3072) return 0;
    let dotProduct = 0, normA = 0, normB = 0;
    for (let i = 0; i < 3072; i++) {
      dotProduct += vecA[i] * vecB[i];
      normA += vecA[i] * vecA[i];
      normB += vecB[i] * vecB[i];
    }
    const magnitude = Math.sqrt(normA) * Math.sqrt(normB);
    return magnitude === 0 ? 0 : dotProduct / magnitude;
  }
  \<close>
  The copy in the background script tests the two lengths in two statements; it returns
  the same value on every input.
\<close>

definition cosine_step :: "vector \<Rightarrow> vector \<Rightarrow> nat \<Rightarrow> jsnum \<times> jsnum \<times> jsnum \<Rightarrow> jsnum \<times> jsnum \<times> jsnum" where
  "cosine_step vecA vecB i acc =
     (case acc of (dotProduct, normA, normB) \<Rightarrow>
        (jadd dotProduct (jmul (vec_at vecA i) (vec_at vecB i)),
         jadd normA (jmul (vec_at vecA i) (vec_at vecA i)),
         jadd normB (jmul (vec_at vecB i) (vec_at vecB i))))"

definition cosine_loop :: "nat \<Rightarrow> vector \<Rightarrow> vector \<Rightarrow> jsnum \<times> jsnum \<times> jsnum" where
  "cosine_loop n vecA vecB = fold (cosine_step vecA vecB) [0..<n] (Num 0, Num 0, Num 0)"

definition cosineSimilarity :: "vector \<Rightarrow> vector \<Rightarrow> jsnum" where
  "cosineSimilarity vecA vecB =
     (if length vecA \<noteq> length vecB \<or> length vecA \<noteq> 3072 then Num 0
      else (case cosine_loop 3072 vecA vecB of (dotProduct, normA, normB) \<Rightarrow>
              (let magnitude = jmul (jsqrt normA) (jsqrt normB)
               in if magnitude = Num 0 then Num 0 else jdiv dotProduct magnitude)))"

section \<open>Plans, decisions and the execution engine\<close>

text \<open>
  An awaited call either rejects with an error message or resolves with a value.
\<close>

datatype 'a js = Throws string | Returns 'a

text \<open>
  A step of a plan (\<^verbatim>\<open>{id, type, description, parameters, tool, dependencies}\<close>). The
  fields read by the execution engine are kept; \<^verbatim>\<open>dependencies\<close> is absent on the steps
  that declare none, hence the option. The step type is the string of the source.
\<close>

record step =
  step_id :: string
  step_type :: string
  dependencies :: "string list option"

record plan =
  plan_id :: string
  plan_type :: string
  query :: string
  steps :: "step list"

text \<open>
  Result items are opaque to the engine and modelled as strings. A payload is an array of
  items or a single non-array value; \<open>None\<close> in a payload field stands for \<^verbatim>\<open>undefined\<close>,
  \<^verbatim>\<open>null\<close> or any other falsy value.
\<close>

type_synonym item = string

datatype payload = Items "item list" | Item item

record tool_result =
  tr_success :: bool
  tr_data :: "payload option"
  tr_results :: "payload option"
  tr_error :: "string option"

text \<open>
  The injected action-execution collaborator (\<^verbatim>\<open>context.actionModule\<close>). What a call
  resolves or rejects with is not determined by the engine, and may differ from one attempt
  to the next: the first argument is the number of the loop iteration that makes the call.
\<close>

record action_module =
  executeSearch :: "nat \<Rightarrow> step \<Rightarrow> tool_result js"
  executeNavigation :: "nat \<Rightarrow> step \<Rightarrow> tool_result js"
  executeHighlight :: "nat \<Rightarrow> step \<Rightarrow> tool_result js"

text \<open>
  \<^verbatim>\<open>ActionModule.executeSearch\<close> (action.js) is the collaborator the agent injects. It
  catches whatever the search manager throws and resolves with a \<^verbatim>\<open>ToolCallResult\<close>
  (\<^verbatim>\<open>results = data.results || []\<close>, \<^verbatim>\<open>data = data.data || null\<close>).
\<close>

definition ActionModule_executeSearch :: "item list js \<Rightarrow> tool_result js" where
  "ActionModule_executeSearch performSearch =
     (case performSearch of
        Returns found \<Rightarrow>
          Returns \<lparr>tr_success = True, tr_data = None, tr_results = Some (Items found), tr_error = None\<rparr>
      | Throws message \<Rightarrow>
          Returns \<lparr>tr_success = False, tr_data = None, tr_results = Some (Items []),
                   tr_error = Some message\<rparr>)"

text \<open>\<^verbatim>\<open>DecisionModule.executeStep\<close>: the switch on the step type.\<close>

definition executeStep :: "action_module \<Rightarrow> nat \<Rightarrow> step \<Rightarrow> tool_result js" where
  "executeStep am attempt step =
     (if step_type step = ''search'' then executeSearch am attempt step
      else if step_type step = ''navigation'' then executeNavigation am attempt step
      else if step_type step = ''highlight'' then executeHighlight am attempt step
      else if step_type step = ''analysis'' then
        Returns \<lparr>tr_success = True, tr_data = None, tr_results = None, tr_error = None\<rparr>
      else Throws (''Unknown step type: '' @ step_type step))"

text \<open>\<^verbatim>\<open>Array.prototype.findIndex\<close>: -1 when no element matches.\<close>

fun findIndex :: "('a \<Rightarrow> bool) \<Rightarrow> 'a list \<Rightarrow> int" where
  "findIndex P [] = - 1"
| "findIndex P (x # xs) =
     (if P x then 0 else (let i = findIndex P xs in if i < 0 then - 1 else i + 1))"

text \<open>
  \<^verbatim>\<open>
  getNextStepId(plan, currentStepId) {
    const currentIndex = plan.steps.findIndex(s => s.id === currentStepId);
    const nextStep = plan.steps[currentIndex + 1];
    return nextStep ? nextStep.id : null;
  }
  \<close>
\<close>

definition getNextStepId :: "plan \<Rightarrow> string \<Rightarrow> string option" where
  "getNextStepId plan currentStepId =
     (let currentIndex = findIndex (\<lambda>s. step_id s = currentStepId) (steps plan);
          next_index = nat (currentIndex + 1)
      in if next_index < length (steps plan) then Some (step_id (steps plan ! next_index)) else None)"

definition retryableSteps :: "string list" where
  "retryableSteps = [''search'', ''navigation'']"

text \<open>
  \<^verbatim>\<open>
  handleStepError(plan, stepId, error) {
    const retryableSteps = ['search', 'navigation'];
    const step = plan.steps.find(s => s.id === stepId);
    if (step && retryableSteps.includes(step.type)) return stepId;
    return this.getNextStepId(plan, stepId);
  }
  \<close>
\<close>

definition handleStepError :: "plan \<Rightarrow> string \<Rightarrow> string option" where
  "handleStepError plan stepId =
     (case find (\<lambda>s. step_id s = stepId) (steps plan) of
        Some step \<Rightarrow>
          if List.member retryableSteps (step_type step) then Some stepId
          else getNextStepId plan stepId
      | None \<Rightarrow> getNextStepId plan stepId)"

text \<open>An element of \<^verbatim>\<open>executionResults\<close>.\<close>

record exec_entry =
  stepId :: string
  success :: bool
  data :: "payload option"
  error :: "string option"

datatype decision =
    Execute tool_result "string option"
  | Complete
  | Error string "string option"
  | Wait "string option"

text \<open>
  \<^verbatim>\<open>executionResults.some(result => result.stepId === dep && result.success)\<close>
\<close>

definition dependency_met :: "exec_entry list \<Rightarrow> string \<Rightarrow> bool" where
  "dependency_met executionResults dep =
     list_ex (\<lambda>result. stepId result = dep \<and> success result) executionResults"

text \<open>
  The \<^verbatim>\<open>try\<close> block of \<^verbatim>\<open>decideNextAction\<close>: the handler is called here and nowhere else.
\<close>

definition dispatch :: "plan \<Rightarrow> string \<Rightarrow> step \<Rightarrow> action_module \<Rightarrow> nat \<Rightarrow> decision" where
  "dispatch currentPlan currentStep step am attempt =
     (case executeStep am attempt step of
        Returns result \<Rightarrow> Execute result (getNextStepId currentPlan currentStep)
      | Throws message \<Rightarrow> Error message (handleStepError currentPlan currentStep))"

text \<open>
  \<^verbatim>\<open>
  async decideNextAction(currentPlan, currentStep, executionResults, context) {
    const step = currentPlan.steps.find(s => s.id === currentStep);
    if (!step) return { action: 'complete', ..., nextStep: null };
    if (step.dependencies) {
      const dependenciesMet = step.dependencies.every(dep =>
        executionResults.some(result => result.stepId === dep && result.success));
      if (!dependenciesMet)
        return { action: 'wait', ..., nextStep: step.dependencies[0] };
    }
    try { const result = await this.executeStep(step, context);
          return { action: 'execute', result, nextStep: this.getNextStepId(currentPlan, currentStep) };
    } catch (error) {
          return { action: 'error', error: error.message,
                   nextStep: this.handleStepError(currentPlan, currentStep, error) }; }
  }
  \<close>
\<close>

definition decideNextAction ::
  "plan \<Rightarrow> string \<Rightarrow> exec_entry list \<Rightarrow> action_module \<Rightarrow> nat \<Rightarrow> decision" where
  "decideNextAction currentPlan currentStep executionResults am attempt =
     (case find (\<lambda>s. step_id s = currentStep) (steps currentPlan) of
        None \<Rightarrow> Complete
      | Some step \<Rightarrow>
          (case dependencies step of
             None \<Rightarrow> dispatch currentPlan currentStep step am attempt
           | Some deps \<Rightarrow>
               if \<not> list_all (dependency_met executionResults) deps
               then Wait (case deps of [] \<Rightarrow> None | dep # _ \<Rightarrow> Some dep)
               else dispatch currentPlan currentStep step am attempt))"

text \<open>
  \<^verbatim>\<open>createExecutionResult\<close>. The plan's id, type and query are copied into the result and
  the result is appended to the agent's history; the model keeps the fields the claims are
  about.
\<close>

record execution_result =
  res_success :: bool
  stepsExecuted :: nat
  totalSteps :: nat
  results :: "item list"
  res_error :: "string option"

fun payload_items :: "payload \<Rightarrow> item list" where
  "payload_items (Items xs) = xs"
| "payload_items (Item x) = [x]"

definition createExecutionResult ::
  "plan \<Rightarrow> exec_entry list \<Rightarrow> bool \<Rightarrow> string option \<Rightarrow> execution_result" where
  "createExecutionResult plan executionResults ok err =
     \<lparr>res_success = ok,
      stepsExecuted = length executionResults,
      totalSteps = length (steps plan),
      results = concat (map (\<lambda>stepResult.
                   if success stepResult
                   then (case data stepResult of Some d \<Rightarrow> payload_items d | None \<Rightarrow> [])
                   else []) executionResults),
      res_error = err\<rparr>"

text \<open>
  One record per loop iteration that reached a decision: the cursor and the recorded
  results the decision was taken on, and the decision. The trace and the way the loop was
  left are not values of the JavaScript; they are kept so that properties of a whole
  execution can be stated.
\<close>

record iteration =
  it_cursor :: string
  it_results :: "exec_entry list"
  it_decision :: decision

datatype exit = NoCurrentStep | StepNotFound | PlanComplete | BudgetSpent

record run =
  outcome :: execution_result
  recorded :: "exec_entry list"
  trace :: "iteration list"
  left_by :: exit

definition finish :: "plan \<Rightarrow> exec_entry list \<Rightarrow> bool \<Rightarrow> iteration list \<Rightarrow> exit \<Rightarrow> run" where
  "finish plan executionResults ok tr how =
     \<lparr>outcome = createExecutionResult plan executionResults ok None,
      recorded = executionResults, trace = tr, left_by = how\<rparr>"

text \<open>
  \<^verbatim>\<open>
  for (let attempt = 0; attempt < this.maxExecutionSteps; attempt++) {
    if (!currentStepId) break;
    const currentStep = plan.steps.find(s => s.id === currentStepId);
    if (!currentStep) break;
    const decision = await this.decision.decideNextAction(plan, currentStepId, executionResults, ...);
    switch (decision.action) {
      case 'execute':  executionResults.push({stepId: currentStepId, success: stepResult.success,
                         data: stepResult.data || stepResult.results, error: stepResult.error}); break;
      case 'complete': return this.createExecutionResult(plan, executionResults, true);
      case 'error':    executionResults.push({stepId: currentStepId, success: false,
                         error: decision.error}); break;
      case 'wait':     await new Promise(resolve => setTimeout(resolve, 500)); continue;
    }
    currentStepId = decision.nextStep;
  }
  return this.createExecutionResult(plan, executionResults, false);
  \<close>
  The first numeric argument is the number of iterations left
  (\<^verbatim>\<open>maxExecutionSteps - attempt\<close>), the second is \<^verbatim>\<open>attempt\<close>. The cursor is falsy when it
  is \<^verbatim>\<open>undefined\<close>/\<^verbatim>\<open>null\<close> (\<open>None\<close>) or the empty string. The delays are left out.
\<close>

fun executeLoop ::
  "action_module \<Rightarrow> plan \<Rightarrow> nat \<Rightarrow> nat \<Rightarrow> string option \<Rightarrow> exec_entry list \<Rightarrow> iteration list \<Rightarrow> run" where
  "executeLoop am plan 0 attempt currentStepId executionResults tr =
     finish plan executionResults False tr BudgetSpent"
| "executeLoop am plan (Suc n) attempt currentStepId executionResults tr =
     (case currentStepId of
        None \<Rightarrow> finish plan executionResults False tr NoCurrentStep
      | Some cur \<Rightarrow>
          if cur = [] then finish plan executionResults False tr NoCurrentStep
          else
            (case find (\<lambda>s. step_id s = cur) (steps plan) of
               None \<Rightarrow> finish plan executionResults False tr StepNotFound
             | Some currentStep \<Rightarrow>
                 (let decision = decideNextAction plan cur executionResults am attempt;
                      tr' = tr @ [\<lparr>it_cursor = cur, it_results = executionResults,
                                   it_decision = decision\<rparr>]
                  in case decision of
                       Execute stepResult nextStep \<Rightarrow>
                         executeLoop am plan n (Suc attempt) nextStep
                           (executionResults @
                              [\<lparr>stepId = cur, success = tr_success stepResult,
                                data = (case tr_data stepResult of
                                          Some d \<Rightarrow> Some d | None \<Rightarrow> tr_results stepResult),
                                error = tr_error stepResult\<rparr>]) tr'
                     | Complete \<Rightarrow> finish plan executionResults True tr' PlanComplete
                     | Error message nextStep \<Rightarrow>
                         executeLoop am plan n (Suc attempt) nextStep
                           (executionResults @
                              [\<lparr>stepId = cur, success = False, data = None,
                                error = Some message\<rparr>]) tr'
                     | Wait _ \<Rightarrow>
                         executeLoop am plan n (Suc attempt) currentStepId executionResults tr')))"

text \<open>\<^verbatim>\<open>this.maxExecutionSteps = 5\<close> in the agent's constructor.\<close>

definition maxExecutionSteps :: nat where
  "maxExecutionSteps = 5"

text \<open>
  \<^verbatim>\<open>executePlan\<close>, with the agent's iteration budget as first argument. The cursor starts
  at \<^verbatim>\<open>plan.steps[0]?.id\<close>.
\<close>

definition executePlan :: "nat \<Rightarrow> action_module \<Rightarrow> plan \<Rightarrow> run" where
  "executePlan budget am plan =
     executeLoop am plan budget 0
       (case steps plan of [] \<Rightarrow> None | first # _ \<Rightarrow> Some (step_id first)) [] []"

subsection \<open>Notions used to state properties of an execution\<close>

text \<open>The decisions that called the step's handler.\<close>

fun dispatched :: "decision \<Rightarrow> bool" where
  "dispatched (Execute _ _) = True"
| "dispatched (Error _ _) = True"
| "dispatched Complete = False"
| "dispatched (Wait _) = False"

text \<open>The dependencies the step under the cursor declares, in declaration order.\<close>

definition declared_dependencies :: "plan \<Rightarrow> string \<Rightarrow> string list" where
  "declared_dependencies plan cur =
     (case find (\<lambda>s. step_id s = cur) (steps plan) of
        None \<Rightarrow> []
      | Some step \<Rightarrow> (case dependencies step of None \<Rightarrow> [] | Some deps \<Rightarrow> deps))"

text \<open>Those of them that have no recorded successful result.\<close>

definition unmet_dependencies :: "plan \<Rightarrow> string \<Rightarrow> exec_entry list \<Rightarrow> string list" where
  "unmet_dependencies plan cur executionResults =
     filter (\<lambda>dep. \<not> dependency_met executionResults dep) (declared_dependencies plan cur)"

definition first_of :: "'a list \<Rightarrow> 'a option" where
  "first_of xs = (case xs of [] \<Rightarrow> None | x # _ \<Rightarrow> Some x)"

text \<open>
  The two properties of one entry of the trace, and of two consecutive entries, that the
  dependency gate maintains.
\<close>

definition gate_ok :: "plan \<Rightarrow> iteration \<Rightarrow> bool" where
  "gate_ok plan it \<longleftrightarrow>
     (dispatched (it_decision it) \<longrightarrow> unmet_dependencies plan (it_cursor it) (it_results it) = []) \<and>
     (unmet_dependencies plan (it_cursor it) (it_results it) \<noteq> [] \<longrightarrow>
        it_decision it = Wait (first_of (declared_dependencies plan (it_cursor it))))"

definition reenters :: "plan \<Rightarrow> iteration \<Rightarrow> iteration \<Rightarrow> bool" where
  "reenters plan a b \<longleftrightarrow>
     (unmet_dependencies plan (it_cursor a) (it_results a) \<noteq> [] \<longrightarrow>
        it_cursor b = it_cursor a \<and> it_results b = it_results a)"

subsection \<open>Concrete plans and collaborators\<close>

definition mk_step :: "string \<Rightarrow> string \<Rightarrow> string list option \<Rightarrow> step" where
  "mk_step i ty deps = \<lparr>step_id = i, step_type = ty, dependencies = deps\<rparr>"

definition mk_plan :: "step list \<Rightarrow> plan" where
  "mk_plan ss = \<lparr>plan_id = ''plan_1'', plan_type = ''basic'', query = ''q'', steps = ss\<rparr>"

text \<open>Plan \<open>A (no dependencies) \<rightarrow> B (depends on A) \<rightarrow> C (depends on B)\<close>, with the step types open.\<close>

definition plan_ABC :: "string \<Rightarrow> string \<Rightarrow> string \<Rightarrow> plan" where
  "plan_ABC tyA tyB tyC =
     mk_plan [mk_step ''A'' tyA None, mk_step ''B'' tyB (Some [''A'']), mk_step ''C'' tyC (Some [''B''])]"

text \<open>A plan whose third step declares two dependencies, the first two steps.\<close>

definition plan_ABX :: plan where
  "plan_ABX =
     mk_plan [mk_step ''A'' ''search'' None, mk_step ''B'' ''navigation'' None,
              mk_step ''X'' ''analysis'' (Some [''A'', ''B''])]"

text \<open>
  A collaborator whose search succeeds with one item, whose navigation reports a failure
  in its result (as \<^verbatim>\<open>ActionModule\<close> does) and whose highlight rejects.
\<close>

definition demo_actions :: action_module where
  "demo_actions =
     \<lparr>executeSearch = (\<lambda>attempt step. ActionModule_executeSearch (Returns [''hit''])),
      executeNavigation = (\<lambda>attempt step.
         Returns \<lparr>tr_success = False, tr_data = None, tr_results = Some (Items []),
                  tr_error = Some ''navigation failed''\<rparr>),
      executeHighlight = (\<lambda>attempt step. Throws ''highlight failed'')\<rparr>"

text \<open>The fallback plan's second step alone: a first step that declares a dependency.\<close>

definition plan_blocked :: plan where
  "plan_blocked = mk_plan [mk_step ''2'' ''navigation'' (Some [''1''])]"

section \<open>The memory store and its search\<close>

text \<open>
  A memory (\<^verbatim>\<open>{id, type, content, metadata, tags, embedding}\<close>); search reads the id and
  the type and copies the rest into the result. The vectors that search ranks are held in
  the parallel collection \<^verbatim>\<open>this.embeddings\<close>, whose \<^verbatim>\<open>embedding\<close> may be \<^verbatim>\<open>null\<close>
  (\<^verbatim>\<open>addMemory\<close> stores whatever the embedding service resolved with).
\<close>

record memory =
  mem_id :: string
  mem_type :: string
  content :: string

record stored_embedding =
  emb_id :: string
  embedding :: "vector option"

record memory_store =
  memories :: "memory list"
  embeddings :: "stored_embedding list"

text \<open>
  The second argument of \<^verbatim>\<open>search\<close> as the caller passes it: omitted
  (\<^verbatim>\<open>undefined\<close>), \<^verbatim>\<open>null\<close>, or an object whose three properties may each be absent.
  The limit is a count (the callers pass 10 or 20).
\<close>

record options_object =
  opt_limit :: "nat option"
  opt_type :: "string option"
  opt_minScore :: "real option"

datatype options_arg = Undefined | Null | Object options_object

text \<open>The three constants of the destructuring, with every default applied.\<close>

record search_options =
  limit :: nat
  type_filter :: "string option"
  minScore :: real

definition default_options :: search_options where
  "default_options = \<lparr>limit = 10, type_filter = None, minScore = 0.12\<rparr>"

text \<open>
  \<^verbatim>\<open>async search(query, options = {}) {
    const { limit = 10, type = null, minScore = 0.12 } = options;\<close>
  The parameter default replaces \<^verbatim>\<open>undefined\<close> only; destructuring \<^verbatim>\<open>null\<close> throws a
  TypeError. This statement is the first of the function body and stands before the
  \<^verbatim>\<open>try\<close>.
\<close>

definition destructure :: "options_arg \<Rightarrow> search_options js" where
  "destructure arg =
     (case arg of
        Undefined \<Rightarrow> Returns default_options
      | Null \<Rightarrow> Throws ''TypeError: Cannot destructure property of null''
      | Object ob \<Rightarrow>
          Returns \<lparr>limit = (case opt_limit ob of None \<Rightarrow> 10 | Some n \<Rightarrow> n),
                   type_filter = opt_type ob,
                   minScore = (case opt_minScore ob of None \<Rightarrow> 0.12 | Some x \<Rightarrow> x)\<rparr>)"

text \<open>A result: the memory with its score (\<^verbatim>\<open>{ ...memory, score, matchType }\<close>).\<close>

record scored =
  item :: memory
  score :: real

text \<open>
  The body of the loop over \<^verbatim>\<open>this.memories\<close>: what one memory pushes onto \<^verbatim>\<open>results\<close>.
  \<^verbatim>\<open>
  if (type && memory.type !== type) continue;
  const memoryEmbedding = this.embeddings.find(e => e.id === memory.id);
  if (!memoryEmbedding?.embedding || memoryEmbedding.embedding.length !== 3072) continue;
  const similarity = this.cosineSimilarity(queryEmbedding, memoryEmbedding.embedding);
  if (similarity >= minScore) results.push({ ...memory, score: similarity, ... });
  \<close>
  A filter that is \<^verbatim>\<open>null\<close> or the empty string is falsy and filters nothing; a comparison
  with NaN is false.
\<close>

definition rank_memory ::
  "stored_embedding list \<Rightarrow> search_options \<Rightarrow> vector \<Rightarrow> memory \<Rightarrow> scored list" where
  "rank_memory embs opts queryEmbedding m =
     (if (case type_filter opts of None \<Rightarrow> False | Some ty \<Rightarrow> ty \<noteq> [] \<and> mem_type m \<noteq> ty) then []
      else
        (case find (\<lambda>e. emb_id e = mem_id m) embs of
           None \<Rightarrow> []
         | Some memoryEmbedding \<Rightarrow>
             (case embedding memoryEmbedding of
                None \<Rightarrow> []
              | Some v \<Rightarrow>
                  if length v \<noteq> 3072 then []
                  else
                    (case cosineSimilarity queryEmbedding v of
                       NaN \<Rightarrow> []
                     | Num similarity \<Rightarrow>
                         if similarity \<ge> minScore opts then [\<lparr>item = m, score = similarity\<rparr>]
                         else []))))"

definition candidates :: "memory_store \<Rightarrow> search_options \<Rightarrow> vector \<Rightarrow> scored list" where
  "candidates store opts queryEmbedding =
     concat (map (rank_memory (embeddings store) opts queryEmbedding) (memories store))"

text \<open>
  \<^verbatim>\<open>results.sort((a, b) => b.score - a.score)\<close>. \<^verbatim>\<open>Array.prototype.sort\<close> is stable, and
  for a comparator that is a total preorder its result is determined: the stable sorted
  permutation, which stable insertion computes.
\<close>

definition by_score_desc :: "scored \<Rightarrow> scored \<Rightarrow> real" where
  "by_score_desc a b = score b - score a"

fun insert_sorted :: "('a \<Rightarrow> 'a \<Rightarrow> real) \<Rightarrow> 'a \<Rightarrow> 'a list \<Rightarrow> 'a list" where
  "insert_sorted cmp x [] = [x]"
| "insert_sorted cmp x (y # ys) =
     (if cmp x y \<le> 0 then x # y # ys else y # insert_sorted cmp x ys)"

definition js_sort :: "('a \<Rightarrow> 'a \<Rightarrow> real) \<Rightarrow> 'a list \<Rightarrow> 'a list" where
  "js_sort cmp xs = foldr (insert_sorted cmp) xs []"

text \<open>
  The \<^verbatim>\<open>try\<close> block of \<^verbatim>\<open>search\<close>. The embedding service is a collaborator: the call
  rejects, or resolves with a vector or with \<^verbatim>\<open>null\<close>, on which \<^verbatim>\<open>queryEmbedding.length\<close>
  throws a TypeError.
\<close>

definition search_try ::
  "(string \<Rightarrow> vector option js) \<Rightarrow> memory_store \<Rightarrow> string \<Rightarrow> search_options \<Rightarrow> scored list js" where
  "search_try embeddingService store q opts =
     (case embeddingService q of
        Throws message \<Rightarrow> Throws message
      | Returns None \<Rightarrow> Throws ''TypeError: Cannot read properties of null (reading length)''
      | Returns (Some queryEmbedding) \<Rightarrow>
          Returns (take (limit opts) (js_sort by_score_desc (candidates store opts queryEmbedding))))"

text \<open>The \<^verbatim>\<open>try\<close> with its \<^verbatim>\<open>catch\<close>, which logs the error and returns the empty array.\<close>

definition search_body ::
  "(string \<Rightarrow> vector option js) \<Rightarrow> memory_store \<Rightarrow> string \<Rightarrow> search_options \<Rightarrow> scored list js" where
  "search_body embeddingService store q opts =
     (case search_try embeddingService store q opts of
        Throws message \<Rightarrow> Returns []
      | Returns found \<Rightarrow> Returns found)"

text \<open>
  \<^verbatim>\<open>search\<close>: the destructuring of the options, whose exception is not caught, then the
  \<^verbatim>\<open>try\<close>/\<^verbatim>\<open>catch\<close>.
\<close>

definition search ::
  "(string \<Rightarrow> vector option js) \<Rightarrow> memory_store \<Rightarrow> string \<Rightarrow> options_arg \<Rightarrow> scored list js" where
  "search embeddingService store q arg =
     (case destructure arg of
        Throws message \<Rightarrow> Throws message
      | Returns opts \<Rightarrow> search_body embeddingService store q opts)"

text \<open>
  The memories that reach the similarity computation: they pass the type filter and their
  stored vector has 3072 components.
\<close>

definition rankable :: "stored_embedding list \<Rightarrow> search_options \<Rightarrow> memory \<Rightarrow> bool" where
  "rankable embs opts m \<longleftrightarrow>
     \<not> (case type_filter opts of None \<Rightarrow> False | Some ty \<Rightarrow> ty \<noteq> [] \<and> mem_type m \<noteq> ty) \<and>
     (case find (\<lambda>e. emb_id e = mem_id m) embs of
        None \<Rightarrow> False
      | Some memoryEmbedding \<Rightarrow>
          (case embedding memoryEmbedding of None \<Rightarrow> False | Some v \<Rightarrow> length v = 3072))"

subsection \<open>A concrete store\<close>

definition page_a :: memory where
  "page_a = \<lparr>mem_id = ''m1'', mem_type = ''web_page'', content = ''The quick brown fox''\<rparr>"

definition page_b :: memory where
  "page_b = \<lparr>mem_id = ''m2'', mem_type = ''web_page'', content = ''A lazy dog''\<rparr>"

text \<open>
  \<open>page_a\<close> was embedded by a 3072-dimensional provider, \<open>page_b\<close> by a three-dimensional
  one.
\<close>

definition mixed_store :: memory_store where
  "mixed_store =
     \<lparr>memories = [page_a, page_b],
      embeddings = [\<lparr>emb_id = ''m1'', embedding = Some (replicate 3072 (Num 1))\<rparr>,
                    \<lparr>emb_id = ''m2'', embedding = Some [Num 1, Num 0, Num 0]\<rparr>]\<rparr>"

text \<open>The three-dimensional provider of the fallback scenario.\<close>

definition provider_3d :: "string \<Rightarrow> vector option js" where
  "provider_3d text = Returns (Some [Num 1, Num 0, Num 0])"

definition provider_down :: "string \<Rightarrow> vector option js" where
  "provider_down text = Throws ''Gemini API key not configured''"

text \<open>The options of the end-to-end scenario: \<^verbatim>\<open>{type: 'web_page', minScore: 0}\<close>.\<close>

definition zero_threshold :: options_object where
  "zero_threshold = \<lparr>opt_limit = None, opt_type = Some ''web_page'', opt_minScore = Some 0\<rparr>"

section \<open>The embedding service and its fallback chain\<close>

text \<open>
  A provider object: what its \<^verbatim>\<open>embed\<close> resolves or rejects with on a text, during the
  calls under consideration (providers call the network; their code is not modelled).
\<close>

record provider =
  embed :: "string \<Rightarrow> vector js"

text \<open>
  \<^verbatim>\<open>EmbeddingService\<close>: \<^verbatim>\<open>providers\<close> is a \<^verbatim>\<open>Map\<close>, iterated in insertion order, with one
  provider object per key; \<^verbatim>\<open>currentProvider\<close> is one of these objects or \<^verbatim>\<open>null\<close>. An
  object is identified by its key, so that \<^verbatim>\<open>provider !== this.currentProvider\<close> is the
  inequality of keys. \<open>attempted\<close> is not a field of the class: it logs the keys of the
  providers whose \<^verbatim>\<open>embed\<close> was called, in order.
\<close>

record embedding_service =
  currentProvider :: "(string \<times> provider) option"
  providers :: "(string \<times> provider) list"
  attempted :: "string list"

text \<open>
  What \<^verbatim>\<open>initializeProviders\<close> depends on: the four provider objects it constructs (keys
  gemini, local, huggingface, openai, in this order) and the provider name read from the
  stored settings (\<^verbatim>\<open>getSettings\<close> may reject).
\<close>

record environment =
  constructed :: "(string \<times> provider) list"
  stored_provider :: "string js"

fun failed :: "'a js \<Rightarrow> bool" where
  "failed (Throws _) = True"
| "failed (Returns _) = False"

text \<open>
  \<^verbatim>\<open>
  this.providers.set('gemini', new GeminiProvider()); ... (local, huggingface, openai)
  const settings = await this.getSettings();
  this.currentProvider = this.providers.get(settings.embeddingProvider) ||
                         this.providers.get('gemini');
  \<close>
\<close>

definition initializeProviders ::
  "environment \<Rightarrow> embedding_service \<Rightarrow> unit js \<times> embedding_service" where
  "initializeProviders env sv =
     (let sv1 = sv\<lparr>providers := constructed env\<rparr>
      in case stored_provider env of
           Throws message \<Rightarrow> (Throws message, sv1)
         | Returns name \<Rightarrow>
             (Returns (),
              sv1\<lparr>currentProvider :=
                    (case map_of (constructed env) name of
                       Some p \<Rightarrow> Some (name, p)
                     | None \<Rightarrow>
                         (case map_of (constructed env) ''gemini'' of
                            Some p \<Rightarrow> Some (''gemini'', p)
                          | None \<Rightarrow> None))\<rparr>))"

text \<open>
  The \<^verbatim>\<open>catch\<close> block of \<^verbatim>\<open>getEmbedding\<close>:
  \<^verbatim>\<open>
  for (const [name, provider] of this.providers) {
    if (provider !== this.currentProvider) {
      try { const embedding = await provider.embed(text);
            this.currentProvider = provider;
            return embedding;
      } catch (fallbackError) { console.error(...); }
    }
  }
  throw new Error('All embedding providers failed');
  \<close>
  The first argument is the key of the provider that was current when the loop started
  (\<open>None\<close> when there was none).
\<close>

fun try_fallbacks ::
  "string option \<Rightarrow> (string \<times> provider) list \<Rightarrow> embedding_service \<Rightarrow> string
     \<Rightarrow> vector js \<times> embedding_service" where
  "try_fallbacks cur [] sv text = (Throws ''All embedding providers failed'', sv)"
| "try_fallbacks cur ((name, p) # rest) sv text =
     (if cur = Some name then try_fallbacks cur rest sv text
      else
        (case embed p text of
           Returns values \<Rightarrow>
             (Returns values,
              sv\<lparr>currentProvider := Some (name, p), attempted := attempted sv @ [name]\<rparr>)
         | Throws fallbackError \<Rightarrow>
             try_fallbacks cur rest (sv\<lparr>attempted := attempted sv @ [name]\<rparr>) text))"

text \<open>
  \<^verbatim>\<open>
  async getEmbedding(text) {
    if (!this.currentProvider) await this.initializeProviders();
    try { return await this.currentProvider.embed(text); }
    catch (error) { ... the fallback loop ... }
  }
  \<close>
  A rejection of \<^verbatim>\<open>initializeProviders\<close> is outside the \<^verbatim>\<open>try\<close> and rejects the call; a
  missing current provider makes \<^verbatim>\<open>this.currentProvider.embed\<close> throw inside the \<^verbatim>\<open>try\<close>,
  which starts the fallback loop.
\<close>

definition getEmbedding ::
  "environment \<Rightarrow> embedding_service \<Rightarrow> string \<Rightarrow> vector js \<times> embedding_service" where
  "getEmbedding env sv text =
     (case (if currentProvider sv = None then initializeProviders env sv else (Returns (), sv)) of
        (Throws message, sv1) \<Rightarrow> (Throws message, sv1)
      | (Returns _, sv1) \<Rightarrow>
          (case currentProvider sv1 of
             None \<Rightarrow> try_fallbacks None (providers sv1) sv1 text
           | Some (name, p) \<Rightarrow>
               (case embed p text of
                  Returns values \<Rightarrow>
                    (Returns values, sv1\<lparr>attempted := attempted sv1 @ [name]\<rparr>)
                | Throws message \<Rightarrow>
                    try_fallbacks (Some name) (providers sv1)
                      (sv1\<lparr>attempted := attempted sv1 @ [name]\<rparr>) text)))"

subsection \<open>The fallback scenario\<close>

definition P1 :: provider where
  "P1 = \<lparr>embed = (\<lambda>text. Throws ''Gemini API key not configured'')\<rparr>"

definition P2 :: provider where
  "P2 = \<lparr>embed = (\<lambda>text. Returns [Num 1, Num 0, Num 0])\<rparr>"

definition two_providers :: embedding_service where
  "two_providers =
     \<lparr>currentProvider = Some (''gemini'', P1),
      providers = [(''gemini'', P1), (''local'', P2)],
      attempted = []\<rparr>"

definition no_environment :: environment where
  "no_environment = \<lparr>constructed = [], stored_provider = Throws ''storage unavailable''\<rparr>"

section \<open>The Gemini embedding service: direct, chunked and pooled embeddings\<close>

text \<open>
  A JavaScript string is a sequence of 16-bit code units; \<^verbatim>\<open>text.length\<close> is the number
  of code units, and \<^verbatim>\<open>new Blob([text]).size\<close> is the number of bytes of the UTF-8 encoding
  of the text: one byte for a code unit below 0x80, two below 0x800, four for a surrogate
  pair and three for every other code unit (a lone surrogate is encoded as U+FFFD).
\<close>

type_synonym code_unit = "16 word"

type_synonym jstring = "code_unit list"

definition is_high_surrogate :: "code_unit \<Rightarrow> bool" where
  "is_high_surrogate u \<longleftrightarrow> 0xD800 \<le> u \<and> u \<le> 0xDBFF"

definition is_low_surrogate :: "code_unit \<Rightarrow> bool" where
  "is_low_surrogate u \<longleftrightarrow> 0xDC00 \<le> u \<and> u \<le> 0xDFFF"

definition unit_size :: "code_unit \<Rightarrow> nat" where
  "unit_size u = (if u < 0x80 then 1 else if u < 0x800 then 2 else 3)"

fun utf8_size :: "jstring \<Rightarrow> nat" where
  "utf8_size [] = 0"
| "utf8_size [u] = unit_size u"
| "utf8_size (u # v # rest) =
     (if is_high_surrogate u \<and> is_low_surrogate v then 4 + utf8_size rest
      else unit_size u + utf8_size (v # rest))"

text \<open>The code units of the full stop, the exclamation mark and the question mark.\<close>

definition is_terminator :: "code_unit \<Rightarrow> bool" where
  "is_terminator u \<longleftrightarrow> u = 0x2E \<or> u = 0x21 \<or> u = 0x3F"

text \<open>The string \<^verbatim>\<open>'. '\<close>.\<close>

definition stop_space :: jstring where
  "stop_space = [0x2E, 0x20]"

text \<open>
  \<^verbatim>\<open>text.split(/[.!?]+/)\<close>: the pieces between maximal runs of terminators; a terminator at
  either end leaves an empty piece there, and the empty text gives one empty piece.
\<close>

function split_sentences :: "jstring \<Rightarrow> jstring list" where
  "split_sentences s =
     (let piece = takeWhile (\<lambda>c. \<not> is_terminator c) s;
          rest = dropWhile (\<lambda>c. \<not> is_terminator c) s
      in if rest = [] then [piece] else piece # split_sentences (dropWhile is_terminator rest))"
  by pat_completeness auto
termination
proof (relation "measure length")
  show "wf (measure length)" by simp
next
  fix s :: jstring and piece rest
  assume "rest = dropWhile (\<lambda>c. \<not> is_terminator c) s" "rest \<noteq> []"
  then have "is_terminator (hd rest)"
    using hd_dropWhile[of "\<lambda>c. \<not> is_terminator c" s] by simp
  with \<open>rest \<noteq> []\<close> have "length (dropWhile is_terminator rest) < length rest"
    by (cases rest) (simp_all add: le_imp_less_Suc length_dropWhile_le)
  also have "length rest \<le> length s"
    using \<open>rest = _\<close> by (simp add: length_dropWhile_le)
  finally show "(dropWhile is_terminator rest, s) \<in> measure length" by simp
qed

declare split_sentences.simps [simp del]

text \<open>
  \<^verbatim>\<open>String.prototype.trim\<close> removes white space and line terminators at both ends: tab,
  line feed, vertical tab, form feed, carriage return, space, no-break space, the space
  separators U+1680, U+2000 to U+200A, U+202F, U+205F and U+3000, the line and paragraph
  separators U+2028 and U+2029, and U+FEFF.
\<close>

definition is_space :: "code_unit \<Rightarrow> bool" where
  "is_space u \<longleftrightarrow>
     u = 0x09 \<or> u = 0x0A \<or> u = 0x0B \<or> u = 0x0C \<or> u = 0x0D \<or> u = 0x20 \<or> u = 0xA0 \<or>
     u = 0x1680 \<or> (0x2000 \<le> u \<and> u \<le> 0x200A) \<or> u = 0x2028 \<or> u = 0x2029 \<or>
     u = 0x202F \<or> u = 0x205F \<or> u = 0x3000 \<or> u = 0xFEFF"

definition trim :: "jstring \<Rightarrow> jstring" where
  "trim s = rev (dropWhile is_space (rev (dropWhile is_space s)))"

text \<open>
  The body of the loop over the sentences, on the pair \<^verbatim>\<open>(chunks, currentChunk)\<close>:
  \<^verbatim>\<open>
  const testChunk = currentChunk + sentence + '. ';
  if (new Blob([testChunk]).size > 30000 && currentChunk.length > 100) {
    chunks.push(currentChunk.trim());
    currentChunk = sentence + '. ';
  } else {
    currentChunk = testChunk;
  }
  \<close>
\<close>

definition chunk_step :: "jstring \<Rightarrow> jstring list \<times> jstring \<Rightarrow> jstring list \<times> jstring" where
  "chunk_step sentence acc =
     (case acc of (chunks, currentChunk) \<Rightarrow>
        (let testChunk = currentChunk @ sentence @ stop_space
         in if utf8_size testChunk > 30000 \<and> length currentChunk > 100
            then (chunks @ [trim currentChunk], sentence @ stop_space)
            else (chunks, testChunk)))"

text \<open>
  The chunks of \<^verbatim>\<open>getChunked3072DEmbedding\<close>: sentences of more than 20 code units after
  trimming, accumulated by the loop; the last chunk is kept when it has more than 50
  code units after trimming.
  \<^verbatim>\<open>
  const sentences = text.split(/[.!?]+/).filter(s => s.trim().length > 20);
  ... the loop ...
  if (currentChunk.trim().length > 50) chunks.push(currentChunk.trim());
  \<close>
\<close>

definition sentences_of :: "jstring \<Rightarrow> jstring list" where
  "sentences_of text = filter (\<lambda>s. length (trim s) > 20) (split_sentences text)"

definition make_chunks :: "jstring \<Rightarrow> jstring list" where
  "make_chunks text =
     (case fold chunk_step (sentences_of text) ([], []) of (chunks, currentChunk) \<Rightarrow>
        if length (trim currentChunk) > 50 then chunks @ [trim currentChunk] else chunks)"

text \<open>
  Two notions for stating what the loop does. A group of sentences written out as the loop
  writes them into \<^verbatim>\<open>currentChunk\<close>, each followed by \<^verbatim>\<open>'. '\<close>; and the test under which
  the loop closes the current chunk before a sentence: with the sentence added the chunk
  would exceed 30000 bytes, and the chunk has more than 100 code units.
\<close>

definition joined :: "jstring list \<Rightarrow> jstring" where
  "joined g = concat (map (\<lambda>s. s @ stop_space) g)"

definition closes_chunk :: "jstring \<Rightarrow> jstring \<Rightarrow> bool" where
  "closes_chunk currentChunk sentence \<longleftrightarrow>
     utf8_size (currentChunk @ sentence @ stop_space) > 30000 \<and> length currentChunk > 100"

text \<open>
  \<^verbatim>\<open>
  average3072DEmbeddings(embeddings) {
    if (embeddings.length === 0) return null;
    if (embeddings.length === 1) return embeddings[0];
    const averaged = new Float32Array(3072);
    for (let i = 0; i < 3072; i++) {
      let sum = 0;
      for (const embedding of embeddings) sum += embedding[i];
      averaged[i] = sum / embeddings.length;
    }
    return averaged;
  }
  \<close>
  An element of \<^verbatim>\<open>embeddings\<close> is a vector or \<^verbatim>\<open>null\<close> (what a nested chunked embedding may
  have resolved with); with two or more elements, indexing \<^verbatim>\<open>null\<close> throws a TypeError.
\<close>

definition average_at :: "vector list \<Rightarrow> nat \<Rightarrow> jsnum" where
  "average_at vs i =
     jdiv (fold (\<lambda>v acc. jadd acc (vec_at v i)) vs (Num 0)) (Num (real (length vs)))"

definition average3072DEmbeddings :: "vector option list \<Rightarrow> vector option js" where
  "average3072DEmbeddings embs =
     (case embs of
        [] \<Rightarrow> Returns None
      | [e] \<Rightarrow> Returns e
      | _ \<Rightarrow>
          (case those embs of
             None \<Rightarrow> Throws ''TypeError: Cannot read properties of null''
           | Some vs \<Rightarrow> Returns (Some (map (average_at vs) [0..<3072]))))"

text \<open>
  The answer of the Gemini endpoint to a request for a text: the request fails, the status
  is not ok, or a body arrives with or without \<^verbatim>\<open>embedding.values\<close>.
\<close>

datatype response = NetworkError string | HttpError string | Body "vector option"

text \<open>
  The part of \<^verbatim>\<open>getGemini3072DEmbedding\<close> after the size test: one request, and the vector
  of the response.
\<close>

definition direct_embedding :: "(jstring \<Rightarrow> response) \<Rightarrow> jstring \<Rightarrow> vector option js" where
  "direct_embedding fetch text =
     (case fetch text of
        NetworkError message \<Rightarrow> Throws message
      | HttpError errorText \<Rightarrow> Throws (''Gemini 3072D error: '' @ errorText)
      | Body None \<Rightarrow> Throws ''No embedding values''
      | Body (Some vals) \<Rightarrow> Returns (Some vals))"

text \<open>
  A call that may not return yields \<open>None\<close> when the fuel is used up. The loop
  \<^verbatim>\<open>for (i...) chunkEmbeddings.push(await this.getGemini3072DEmbedding(chunks[i]))\<close> embeds the
  chunks in order and stops at the first call that rejects or does not return.
\<close>

fun embed_chunks ::
  "(jstring \<Rightarrow> vector option js option) \<Rightarrow> jstring list \<Rightarrow> vector option list js option" where
  "embed_chunks embedChunk [] = Some (Returns [])"
| "embed_chunks embedChunk (c # cs) =
     (case embedChunk c of
        None \<Rightarrow> None
      | Some (Throws message) \<Rightarrow> Some (Throws message)
      | Some (Returns e) \<Rightarrow>
          (case embed_chunks embedChunk cs of
             None \<Rightarrow> None
           | Some (Throws message) \<Rightarrow> Some (Throws message)
           | Some (Returns es) \<Rightarrow> Some (Returns (e # es))))"

text \<open>
  \<^verbatim>\<open>getChunked3072DEmbedding\<close>; its first argument is the method it calls on every chunk,
  \<^verbatim>\<open>this.getGemini3072DEmbedding\<close>.
\<close>

definition getChunked3072DEmbedding ::
  "(jstring \<Rightarrow> vector option js option) \<Rightarrow> jstring \<Rightarrow> vector option js option" where
  "getChunked3072DEmbedding embedChunk text =
     (case embed_chunks embedChunk (make_chunks text) of
        None \<Rightarrow> None
      | Some (Throws message) \<Rightarrow> Some (Throws message)
      | Some (Returns chunkEmbeddings) \<Rightarrow> Some (average3072DEmbeddings chunkEmbeddings))"

text \<open>
  \<^verbatim>\<open>
  async getGemini3072DEmbedding(text) {
    if (!this.apiKey) throw new Error('API key missing');
    const estimatedSize = new Blob([text]).size;
    if (estimatedSize > 35000) return await this.getChunked3072DEmbedding(text);
    const response = await fetch(...);  ...
  }
  \<close>
  The first argument is the fuel: the depth of calls still allowed.
\<close>

fun getGemini3072DEmbedding ::
  "nat \<Rightarrow> string \<Rightarrow> (jstring \<Rightarrow> response) \<Rightarrow> jstring \<Rightarrow> vector option js option" where
  "getGemini3072DEmbedding 0 apiKey fetch text = None"
| "getGemini3072DEmbedding (Suc fuel) apiKey fetch text =
     (if apiKey = [] then Some (Throws ''API key missing'')
      else if utf8_size text > 35000
      then getChunked3072DEmbedding (getGemini3072DEmbedding fuel apiKey fetch) text
      else Some (direct_embedding fetch text))"

text \<open>
  The element-wise arithmetic mean of vectors of real numbers, over the components of the
  first one: the pooled vector in the words of the specification.
\<close>

definition elementwise_mean :: "real list list \<Rightarrow> real list" where
  "elementwise_mean xss =
     (case xss of
        [] \<Rightarrow> []
      | first # _ \<Rightarrow> map (\<lambda>i. (\<Sum>xs\<leftarrow>xss. xs ! i) / real (length xss)) [0..<length first])"

text \<open>The outcomes of a list of calls made in order: the first rejection, or all the values.\<close>

fun collect :: "'a js list \<Rightarrow> 'a list js" where
  "collect [] = Returns []"
| "collect (Throws message # rest) = Throws message"
| "collect (Returns x # rest) =
     (case collect rest of Throws message \<Rightarrow> Throws message | Returns xs \<Rightarrow> Returns (x # xs))"

subsection \<open>Concrete texts and endpoints\<close>

text \<open>The code units of the letters a and b.\<close>

definition letter_a :: code_unit where
  "letter_a = 0x61"

definition letter_b :: code_unit where
  "letter_b = 0x62"

definition full_stop :: code_unit where
  "full_stop = 0x2E"

text \<open>35001 full stops: an oversized text without a sentence.\<close>

definition only_stops :: jstring where
  "only_stops = replicate 35001 full_stop"

text \<open>Two sentences of 20000 letters each.\<close>

definition two_sentences :: jstring where
  "two_sentences = replicate 20000 letter_a @ [full_stop] @ replicate 20000 letter_b @ [full_stop]"

text \<open>One sentence of 30000 letters followed by 5001 full stops.\<close>

definition padded_sentence :: jstring where
  "padded_sentence = replicate 30000 letter_a @ replicate 5001 full_stop"

text \<open>35001 letters without a terminator.\<close>

definition one_long_sentence :: jstring where
  "one_long_sentence = replicate 35001 letter_a"

text \<open>The vector (1, 0, 0), as numbers of the program and as reals.\<close>

definition unit_x :: vector where
  "unit_x = [Num 1, Num 0, Num 0]"

definition unit_x_reals :: "real list" where
  "unit_x_reals = [1, 0, 0]"

text \<open>An endpoint that answers every text with the vector (1, 0, 0).\<close>

definition endpoint_3d :: "jstring \<Rightarrow> response" where
  "endpoint_3d text = Body (Some [Num 1, Num 0, Num 0])"

text \<open>An endpoint that answers every text with 3072 components, all equal to the length of the text.\<close>

definition length_embedding :: "jstring \<Rightarrow> real list" where
  "length_embedding text = replicate 3072 (real (length text))"

definition endpoint_3072 :: "jstring \<Rightarrow> response" where
  "endpoint_3072 text = Body (Some (map Num (length_embedding text)))"

section \<open>Cosine similarity: proofs\<close>

lemma cosine_loop_Num:
  assumes "n \<le> length xs" "n \<le> length ys"
  shows "cosine_loop n (map Num xs) (map Num ys) =
           (Num (\<Sum>i<n. xs ! i * ys ! i), Num (\<Sum>i<n. xs ! i * xs ! i), Num (\<Sum>i<n. ys ! i * ys ! i))"
  using assms
proof (induction n)
  case 0
  show ?case by (simp add: cosine_loop_def)
next
  case (Suc n)
  then have IH: "cosine_loop n (map Num xs) (map Num ys) =
           (Num (\<Sum>i<n. xs ! i * ys ! i), Num (\<Sum>i<n. xs ! i * xs ! i), Num (\<Sum>i<n. ys ! i * ys ! i))"
    by simp
  have "cosine_loop (Suc n) (map Num xs) (map Num ys) =
          cosine_step (map Num xs) (map Num ys) n (cosine_loop n (map Num xs) (map Num ys))"
    by (simp add: cosine_loop_def)
  also have "\<dots> = (Num (\<Sum>i<Suc n. xs ! i * ys ! i), Num (\<Sum>i<Suc n. xs ! i * xs ! i),
                    Num (\<Sum>i<Suc n. ys ! i * ys ! i))"
    using Suc.prems by (simp add: IH cosine_step_def vec_at_def)
  finally show ?case .
qed

lemma sum_squares_pos:
  fixes xs :: "real list"
  assumes "j < n" "xs ! j \<noteq> 0"
  shows "0 < (\<Sum>i<n. xs ! i * xs ! i)"
proof -
  have "0 < (xs ! j)\<^sup>2" using assms(2) by simp
  then have "0 < xs ! j * xs ! j" by (simp add: power2_eq_square)
  also have "\<dots> \<le> (\<Sum>i<n. xs ! i * xs ! i)"
    by (rule member_le_sum) (use assms(1) in auto)
  finally show ?thesis .
qed

text \<open>
  C1 (as amended). In exact arithmetic, a vector of exactly 3072 finite components, not all
  zero, has similarity 1 with itself and -1 with its negation; every pair of vectors of any
  other dimension, equal or not, gets 0 from the guard on the constant 3072.
\<close>

theorem cosineSimilarity_self_3072:
  "(length xs = 3072 \<and> (\<exists>j<3072. xs ! j \<noteq> 0) \<longrightarrow>
      cosineSimilarity (map Num xs) (map Num xs) = Num 1 \<and>
      cosineSimilarity (map Num xs) (map jneg (map Num xs)) = Num (- 1)) \<and>
   (length v \<noteq> 3072 \<longrightarrow> cosineSimilarity v w = Num 0)"
proof (intro conjI impI)
  assume len: "length v \<noteq> 3072"
  show "cosineSimilarity v w = Num 0"
  proof (cases "length v = length w")
    case True
    with len show ?thesis by (simp add: cosineSimilarity_def)
  next
    case False
    then show ?thesis by (simp add: cosineSimilarity_def)
  qed
next
  assume h: "length xs = 3072 \<and> (\<exists>j<3072. xs ! j \<noteq> 0)"
  define s where "s = (\<Sum>i<3072::nat. xs ! i * xs ! i)"
  from h have spos: "0 < s" unfolding s_def using sum_squares_pos by blast
  have loop: "cosine_loop 3072 (map Num xs) (map Num xs) = (Num s, Num s, Num s)"
    unfolding s_def using h by (intro cosine_loop_Num) simp_all
  have sq: "sqrt s * sqrt s = s" using spos by simp
  show "cosineSimilarity (map Num xs) (map Num xs) = Num 1"
    using h spos by (simp add: cosineSimilarity_def loop sq)
next
  assume h: "length xs = 3072 \<and> (\<exists>j<3072. xs ! j \<noteq> 0)"
  define s where "s = (\<Sum>i<3072::nat. xs ! i * xs ! i)"
  from h have spos: "0 < s" unfolding s_def using sum_squares_pos by blast
  have neg: "map jneg (map Num xs) = map Num (map uminus xs)" by simp
  have "cosine_loop 3072 (map Num xs) (map Num (map uminus xs)) =
          (Num (\<Sum>i<3072::nat. xs ! i * map uminus xs ! i), Num (\<Sum>i<3072::nat. xs ! i * xs ! i),
           Num (\<Sum>i<3072::nat. map uminus xs ! i * map uminus xs ! i))"
    using h by (intro cosine_loop_Num) simp_all
  moreover have "(\<Sum>i<3072::nat. xs ! i * map uminus xs ! i) = - s"
    unfolding s_def using h by (simp add: sum_negf)
  moreover have "(\<Sum>i<3072::nat. map uminus xs ! i * map uminus xs ! i) = s"
    unfolding s_def using h by simp
  ultimately have loop: "cosine_loop 3072 (map Num xs) (map Num (map uminus xs)) = (Num (- s), Num s, Num s)"
    unfolding s_def by simp
  have sq: "sqrt s * sqrt s = s" using spos by simp
  have "cosineSimilarity (map Num xs) (map Num (map uminus xs)) = Num (- 1)"
    unfolding cosineSimilarity_def loop using h spos by (simp add: sq)
  then show "cosineSimilarity (map Num xs) (map jneg (map Num xs)) = Num (- 1)"
    by (simp only: neg)
qed

theorem cosineSimilarity_self_3072_witness:
  "cosineSimilarity (map Num (replicate 3072 1)) (map Num (replicate 3072 1)) = Num 1 \<and>
   cosineSimilarity (map Num (replicate 3072 1)) (map jneg (map Num (replicate 3072 1))) = Num (- 1) \<and>
   cosineSimilarity [Num 1, Num 2] [Num 1, Num 2] = Num 0"
proof -
  have nz: "\<exists>j<3072. replicate 3072 (1::real) ! j \<noteq> 0"
    by (rule exI[of _ 0]) simp
  show ?thesis
    using nz cosineSimilarity_self_3072 [of "replicate 3072 1" "[Num 1, Num 2]" "[Num 1, Num 2]"]
    by simp
qed

text \<open>
  C1 as stated fails off dimension 3072: the nonzero three-component vector (1, 0, 0) has
  similarity 0 with itself and 0 with its negation.
\<close>

theorem cosineSimilarity_dimension_counterexample:
  "cosineSimilarity [Num 1, Num 0, Num 0] [Num 1, Num 0, Num 0] = Num 0 \<and>
   cosineSimilarity [Num 1, Num 0, Num 0] (map jneg [Num 1, Num 0, Num 0]) = Num 0"
  by (simp add: cosineSimilarity_def)

section \<open>The dependency gate\<close>

lemma unmet_empty_iff:
  "unmet_dependencies plan cur rs = [] \<longleftrightarrow> list_all (dependency_met rs) (declared_dependencies plan cur)"
  by (simp add: unmet_dependencies_def filter_empty_conv list_all_iff)

lemma dispatch_dispatched: "dispatched (dispatch plan cur step am t)"
  by (simp add: dispatch_def split: js.splits)

lemma decide_wait:
  assumes "unmet_dependencies plan cur rs \<noteq> []"
  shows "decideNextAction plan cur rs am t = Wait (first_of (declared_dependencies plan cur))"
proof (cases "find (\<lambda>s. step_id s = cur) (steps plan)")
  case None
  with assms show ?thesis by (simp add: unmet_dependencies_def declared_dependencies_def)
next
  case (Some step)
  show ?thesis
  proof (cases "dependencies step")
    case None
    with Some assms show ?thesis by (simp add: unmet_dependencies_def declared_dependencies_def)
  next
    case (Some deps)
    with \<open>find _ _ = Some step\<close> assms show ?thesis
      by (simp add: unmet_empty_iff decideNextAction_def declared_dependencies_def first_of_def)
  qed
qed

lemma decide_dispatched:
  assumes "dispatched (decideNextAction plan cur rs am t)"
  shows "unmet_dependencies plan cur rs = []"
proof (rule ccontr)
  assume "unmet_dependencies plan cur rs \<noteq> []"
  from decide_wait[OF this] assms show False by simp
qed

lemma gate_ok_decide:
  "gate_ok plan \<lparr>it_cursor = c, it_results = rs, it_decision = decideNextAction plan c rs am t\<rparr>"
  unfolding gate_ok_def iteration.select_convs
  using decide_dispatched[of plan c rs am t] decide_wait[of plan c rs am t] by blast

lemma executeLoop_trace:
  "\<exists>new. trace (executeLoop am plan n t cur rs tr) = tr @ new \<and>
         list_all (gate_ok plan) new \<and> successively (reenters plan) new \<and>
         (\<forall>it rest. new = it # rest \<longrightarrow> cur = Some (it_cursor it) \<and> it_results it = rs)"
proof (induction n arbitrary: t cur rs tr)
  case 0
  show ?case by (simp add: finish_def)
next
  case (Suc n)
  show ?case
  proof (cases cur)
    case None
    then show ?thesis by (simp add: finish_def)
  next
    case (Some c)
    show ?thesis
    proof (cases "c = [] \<or> find (\<lambda>s. step_id s = c) (steps plan) = None")
      case True
      then show ?thesis using Some by (auto simp: finish_def)
    next
      case False
      then obtain st where st: "c \<noteq> []" "find (\<lambda>s. step_id s = c) (steps plan) = Some st" by auto
      define d where "d = decideNextAction plan c rs am t"
      define it where "it = \<lparr>it_cursor = c, it_results = rs, it_decision = d\<rparr>"
      have ok: "gate_ok plan it"
        unfolding it_def d_def by (rule gate_ok_decide)
      have sel: "it_cursor it = c" "it_results it = rs" by (simp_all add: it_def)
      have unfold: "executeLoop am plan (Suc n) t cur rs tr =
        (case d of
           Execute r nxt \<Rightarrow> executeLoop am plan n (Suc t) nxt
              (rs @ [\<lparr>stepId = c, success = tr_success r,
                      data = (case tr_data r of Some x \<Rightarrow> Some x | None \<Rightarrow> tr_results r),
                      error = tr_error r\<rparr>]) (tr @ [it])
         | Complete \<Rightarrow> finish plan rs True (tr @ [it]) PlanComplete
         | Error m nxt \<Rightarrow> executeLoop am plan n (Suc t) nxt
              (rs @ [\<lparr>stepId = c, success = False, data = None, error = Some m\<rparr>]) (tr @ [it])
         | Wait w \<Rightarrow> executeLoop am plan n (Suc t) (Some c) rs (tr @ [it]))"
        unfolding d_def it_def using Some st by (simp add: Let_def)
      show ?thesis
      proof (cases d)
        case (Execute r nxt)
        then have u: "unmet_dependencies plan c rs = []"
          using decide_dispatched[of plan c rs am t] by (simp add: d_def)
        obtain new where new: "trace (executeLoop am plan n (Suc t) nxt
            (rs @ [\<lparr>stepId = c, success = tr_success r,
                    data = (case tr_data r of Some x \<Rightarrow> Some x | None \<Rightarrow> tr_results r),
                    error = tr_error r\<rparr>]) (tr @ [it])) = (tr @ [it]) @ new"
          "list_all (gate_ok plan) new" "successively (reenters plan) new"
          using Suc.IH by metis
        have "successively (reenters plan) (it # new)"
          using new(3) u by (cases new) (auto simp: reenters_def sel)
        then show ?thesis
          unfolding unfold Execute using Some new ok sel
          by (intro exI[of _ "it # new"]) simp
      next
        case Complete
        show ?thesis
          unfolding unfold Complete using Some ok sel
          by (intro exI[of _ "[it]"]) (simp add: finish_def)
      next
        case (Error m nxt)
        then have u: "unmet_dependencies plan c rs = []"
          using decide_dispatched[of plan c rs am t] by (simp add: d_def)
        obtain new where new: "trace (executeLoop am plan n (Suc t) nxt
            (rs @ [\<lparr>stepId = c, success = False, data = None, error = Some m\<rparr>]) (tr @ [it])) = (tr @ [it]) @ new"
          "list_all (gate_ok plan) new" "successively (reenters plan) new"
          using Suc.IH by metis
        have "successively (reenters plan) (it # new)"
          using new(3) u by (cases new) (auto simp: reenters_def sel)
        then show ?thesis
          unfolding unfold Error using Some new ok sel
          by (intro exI[of _ "it # new"]) simp
      next
        case (Wait w)
        obtain new where new: "trace (executeLoop am plan n (Suc t) (Some c) rs (tr @ [it])) = (tr @ [it]) @ new"
          "list_all (gate_ok plan) new" "successively (reenters plan) new"
          "\<forall>i rest. new = i # rest \<longrightarrow> Some c = Some (it_cursor i) \<and> it_results i = rs"
          using Suc.IH by metis
        have "successively (reenters plan) (it # new)"
          using new(3,4) Some by (cases new) (auto simp: reenters_def sel)
        then show ?thesis
          unfolding unfold Wait using Some new ok sel
          by (intro exI[of _ "it # new"]) simp
      qed
    qed
  qed
qed



text \<open>
  C2 (as amended). In every execution, an iteration that calls the handler finds no unmet
  dependency; an iteration with an unmet dependency decides WAIT, naming the first
  declared dependency of the step (met or not), and the next iteration, if there is one,
  runs on the same cursor and the same recorded results.
\<close>

theorem executePlan_dependency_gate:
  "let T = trace (executePlan budget am plan) in
     i < length T \<longrightarrow>
       (dispatched (it_decision (T ! i)) \<longrightarrow>
          unmet_dependencies plan (it_cursor (T ! i)) (it_results (T ! i)) = []) \<and>
       (unmet_dependencies plan (it_cursor (T ! i)) (it_results (T ! i)) \<noteq> [] \<longrightarrow>
          it_decision (T ! i) = Wait (first_of (declared_dependencies plan (it_cursor (T ! i)))) \<and>
          (Suc i < length T \<longrightarrow>
             it_cursor (T ! Suc i) = it_cursor (T ! i) \<and> it_results (T ! Suc i) = it_results (T ! i)))"
proof -
  define T where "T = trace (executePlan budget am plan)"
  obtain new where new: "T = [] @ new" "list_all (gate_ok plan) new" "successively (reenters plan) new"
    unfolding T_def executePlan_def using executeLoop_trace by metis
  have all: "list_all (gate_ok plan) T" and succ: "successively (reenters plan) T"
    using new by simp_all
  have "gate_ok plan (T ! i)" if "i < length T"
    using all that by (simp add: list_all_length)
  moreover have "reenters plan (T ! i) (T ! Suc i)" if "Suc i < length T"
    using succ that by (simp add: successively_conv_nth)
  ultimately show ?thesis
    unfolding T_def[symmetric] Let_def gate_ok_def reenters_def by blast
qed

theorem executePlan_dependency_gate_witness:
  "it_decision (trace (executePlan 5 demo_actions plan_ABX) ! 2) = Wait (Some ''A'') \<and>
   it_cursor (trace (executePlan 5 demo_actions plan_ABX) ! 3) = ''X'' \<and>
   unmet_dependencies plan_ABX ''A'' [] = []"
proof -
  have T: "map it_cursor (trace (executePlan 5 demo_actions plan_ABX)) = [''A'', ''B'', ''X'', ''X'', ''X'']"
    by code_simp
  have c: "it_cursor (trace (executePlan 5 demo_actions plan_ABX) ! 2) = ''X''"
    by code_simp
  have r: "it_results (trace (executePlan 5 demo_actions plan_ABX) ! 2) =
     [\<lparr>stepId = ''A'', success = True, data = Some (Items [''hit'']), error = None\<rparr>,
      \<lparr>stepId = ''B'', success = False, data = Some (Items []), error = Some ''navigation failed''\<rparr>]"
    by code_simp
  have u: "unmet_dependencies plan_ABX ''X''
     [\<lparr>stepId = ''A'', success = True, data = Some (Items [''hit'']), error = None\<rparr>,
      \<lparr>stepId = ''B'', success = False, data = Some (Items []), error = Some ''navigation failed''\<rparr>] = [''B'']"
    by code_simp
  have d: "declared_dependencies plan_ABX ''X'' = [''A'', ''B'']"
    by code_simp
  have l: "length (trace (executePlan 5 demo_actions plan_ABX)) = 5"
    using arg_cong[OF T, of length] by simp
  have ne: "trace (executePlan 5 demo_actions plan_ABX) \<noteq> []"
    using l by auto
  have d0: "dispatched (it_decision (trace (executePlan 5 demo_actions plan_ABX) ! 0))"
    by code_simp
  have c0: "it_cursor (trace (executePlan 5 demo_actions plan_ABX) ! 0) = ''A''"
       "it_results (trace (executePlan 5 demo_actions plan_ABX) ! 0) = []"
    by code_simp+
  show ?thesis
    using executePlan_dependency_gate[of 5 demo_actions plan_ABX 2]
          executePlan_dependency_gate[of 5 demo_actions plan_ABX 0]
    by (simp add: Let_def l ne c r u d d0 c0 first_of_def)
qed

text \<open>
  C2 as stated fails on "the first unmet dependency": with A succeeded and B failed, step X
  (dependencies A, B) waits on A, which is met, while its first unmet dependency is B.
\<close>

theorem wait_names_first_declared_counterexample:
  "it_decision (trace (executePlan 5 demo_actions plan_ABX) ! 2) = Wait (Some ''A'') \<and>
   first_of (unmet_dependencies plan_ABX
      (it_cursor (trace (executePlan 5 demo_actions plan_ABX) ! 2))
      (it_results (trace (executePlan 5 demo_actions plan_ABX) ! 2))) = Some ''B''"
  by code_simp

section \<open>Budget and the success flag\<close>

lemma decide_blocked:
  assumes "find (\<lambda>s. step_id s = c) (steps plan) = Some s" "dependencies s = Some (d # ds)"
  shows "decideNextAction plan c [] am t = Wait (Some d)"
  using assms by (simp add: decideNextAction_def dependency_met_def)

lemma executeLoop_blocked:
  assumes "find (\<lambda>s. step_id s = c) (steps plan) = Some s" "c \<noteq> []"
    and "dependencies s = Some (d # ds)"
  shows "executeLoop am plan n t (Some c) [] tr =
           finish plan [] False
             (tr @ replicate n \<lparr>it_cursor = c, it_results = [], it_decision = Wait (Some d)\<rparr>)
             BudgetSpent"
proof (induction n arbitrary: t tr)
  case 0
  show ?case by simp
next
  case (Suc n)
  have "executeLoop am plan (Suc n) t (Some c) [] tr =
          executeLoop am plan n (Suc t) (Some c) []
            (tr @ [\<lparr>it_cursor = c, it_results = [], it_decision = Wait (Some d)\<rparr>])"
    using assms by (simp add: decide_blocked[OF assms(1,3)])
  also have "\<dots> = finish plan [] False
      ((tr @ [\<lparr>it_cursor = c, it_results = [], it_decision = Wait (Some d)\<rparr>]) @
        replicate n \<lparr>it_cursor = c, it_results = [], it_decision = Wait (Some d)\<rparr>) BudgetSpent"
    by (rule Suc.IH)
  finally show ?case by (simp add: replicate_app_Cons_same)
qed

lemma decide_found_not_complete:
  assumes "find (\<lambda>s. step_id s = c) (steps plan) = Some s"
  shows "decideNextAction plan c rs am t \<noteq> Complete"
proof (cases "dependencies s")
  case None
  with assms show ?thesis
    by (simp add: decideNextAction_def dispatch_def split: js.splits)
next
  case (Some deps)
  with assms show ?thesis
    by (simp add: decideNextAction_def dispatch_def split: js.splits)
qed

lemma executeLoop_never_succeeds:
  "\<not> res_success (outcome (executeLoop am plan n t cur rs tr))"
proof (induction n arbitrary: t cur rs tr)
  case 0
  show ?case by (simp add: finish_def createExecutionResult_def)
next
  case (Suc n)
  show ?case
  proof (cases cur)
    case None
    then show ?thesis by (simp add: finish_def createExecutionResult_def)
  next
    case (Some c)
    show ?thesis
    proof (cases "find (\<lambda>s. step_id s = c) (steps plan)")
      case None
      with Some show ?thesis by (simp add: finish_def createExecutionResult_def)
    next
      case found: (Some s)
      show ?thesis
      proof (cases "decideNextAction plan c rs am t")
        case (Execute r nxt)
        with Some found show ?thesis
          by (simp add: Suc.IH finish_def createExecutionResult_def)
      next
        case Complete
        with decide_found_not_complete[OF found] show ?thesis by simp
      next
        case (Error m nxt)
        with Some found show ?thesis
          by (simp add: Suc.IH finish_def createExecutionResult_def)
      next
        case (Wait w)
        with Some found show ?thesis
          by (simp add: Suc.IH finish_def createExecutionResult_def)
      qed
    qed
  qed
qed

text \<open>
  C3. With the default budget of 5, a plan whose first step (with a non-empty id) declares
  a dependency runs exactly five iterations, each a WAIT on that dependency, records
  nothing and returns success = false; and whenever the loop is left because the budget is
  spent, the success flag is false.
\<close>

theorem executePlan_budget:
  "(steps plan = s # rest \<and> step_id s \<noteq> [] \<and> dependencies s = Some (d # ds) \<longrightarrow>
      map it_decision (trace (executePlan maxExecutionSteps am plan)) = replicate 5 (Wait (Some d)) \<and>
      recorded (executePlan maxExecutionSteps am plan) = [] \<and>
      left_by (executePlan maxExecutionSteps am plan) = BudgetSpent \<and>
      res_success (outcome (executePlan maxExecutionSteps am plan)) = False) \<and>
   (left_by (executePlan budget am plan) = BudgetSpent \<longrightarrow>
      res_success (outcome (executePlan budget am plan)) = False)"
proof (intro conjI impI)
  assume h: "steps plan = s # rest \<and> step_id s \<noteq> [] \<and> dependencies s = Some (d # ds)"
  then have found: "find (\<lambda>x. step_id x = step_id s) (steps plan) = Some s" by simp
  have run: "executePlan maxExecutionSteps am plan =
      finish plan [] False
        (replicate 5 \<lparr>it_cursor = step_id s, it_results = [], it_decision = Wait (Some d)\<rparr>)
        BudgetSpent"
    using h executeLoop_blocked[OF found, of d ds am 5 0 "[]"]
    by (simp add: executePlan_def maxExecutionSteps_def)
  show "map it_decision (trace (executePlan maxExecutionSteps am plan)) = replicate 5 (Wait (Some d))"
    by (simp add: run finish_def)
  show "recorded (executePlan maxExecutionSteps am plan) = []"
    by (simp add: run finish_def)
  show "left_by (executePlan maxExecutionSteps am plan) = BudgetSpent"
    by (simp add: run finish_def)
  show "res_success (outcome (executePlan maxExecutionSteps am plan)) = False"
    by (simp add: run finish_def createExecutionResult_def)
next
  show "res_success (outcome (executePlan budget am plan)) = False"
    using executeLoop_never_succeeds by (simp add: executePlan_def)
qed

theorem executePlan_budget_witness:
  "map it_decision (trace (executePlan maxExecutionSteps demo_actions plan_blocked)) =
     [Wait (Some ''1''), Wait (Some ''1''), Wait (Some ''1''), Wait (Some ''1''), Wait (Some ''1'')] \<and>
   recorded (executePlan maxExecutionSteps demo_actions plan_blocked) = [] \<and>
   left_by (executePlan maxExecutionSteps demo_actions plan_blocked) = BudgetSpent \<and>
   res_success (outcome (executePlan maxExecutionSteps demo_actions plan_blocked)) = False"
proof -
  have h: "steps plan_blocked = mk_step ''2'' ''navigation'' (Some [''1'']) # [] \<and>
           step_id (mk_step ''2'' ''navigation'' (Some [''1''])) \<noteq> [] \<and>
           dependencies (mk_step ''2'' ''navigation'' (Some [''1''])) = Some (''1'' # [])"
    by (simp add: plan_blocked_def mk_plan_def mk_step_def)
  show ?thesis
    using h executePlan_budget[of plan_blocked "mk_step ''2'' ''navigation'' (Some [''1''])" "[]"
        "''1''" "[]" demo_actions maxExecutionSteps]
    by (simp add: numeral_eq_Suc)
qed

section \<open>Failure of a step\<close>

lemma decide_dispatch:
  assumes "find (\<lambda>s. step_id s = cur) (steps plan) = Some st"
    and "unmet_dependencies plan cur rs = []"
  shows "decideNextAction plan cur rs am t = dispatch plan cur st am t"
proof (cases "dependencies st")
  case None
  with assms(1) show ?thesis by (simp add: decideNextAction_def)
next
  case (Some deps)
  with assms show ?thesis
    by (simp add: decideNextAction_def unmet_empty_iff declared_dependencies_def)
qed

lemma handleStepError_found:
  assumes "find (\<lambda>s. step_id s = cur) (steps plan) = Some st"
  shows "handleStepError plan cur =
           (if step_type st = ''search'' \<or> step_type st = ''navigation'' then Some cur
            else getNextStepId plan cur)"
  using assms by (auto simp: handleStepError_def retryableSteps_def)

lemma executeLoop_step:
  assumes "find (\<lambda>s. step_id s = c) (steps plan) = Some s" "c \<noteq> []"
  shows "executeLoop am plan (Suc n) t (Some c) rs tr =
     (case decideNextAction plan c rs am t of
        Execute r nxt \<Rightarrow> executeLoop am plan n (Suc t) nxt
           (rs @ [\<lparr>stepId = c, success = tr_success r,
                   data = (case tr_data r of Some x \<Rightarrow> Some x | None \<Rightarrow> tr_results r),
                   error = tr_error r\<rparr>])
           (tr @ [\<lparr>it_cursor = c, it_results = rs, it_decision = Execute r nxt\<rparr>])
      | Complete \<Rightarrow> finish plan rs True
           (tr @ [\<lparr>it_cursor = c, it_results = rs, it_decision = Complete\<rparr>]) PlanComplete
      | Error m nxt \<Rightarrow> executeLoop am plan n (Suc t) nxt
           (rs @ [\<lparr>stepId = c, success = False, data = None, error = Some m\<rparr>])
           (tr @ [\<lparr>it_cursor = c, it_results = rs, it_decision = Error m nxt\<rparr>])
      | Wait w \<Rightarrow> executeLoop am plan n (Suc t) (Some c) rs
           (tr @ [\<lparr>it_cursor = c, it_results = rs, it_decision = Wait w\<rparr>]))"
  using assms by (simp add: Let_def split: decision.splits)

lemma executeLoop_waiting:
  assumes "find (\<lambda>s. step_id s = c) (steps plan) = Some s" "c \<noteq> []"
    and "unmet_dependencies plan c rs \<noteq> []"
  shows "executeLoop am plan n t (Some c) rs tr =
           finish plan rs False
             (tr @ replicate n \<lparr>it_cursor = c, it_results = rs,
                                 it_decision = Wait (first_of (declared_dependencies plan c))\<rparr>)
             BudgetSpent"
proof (induction n arbitrary: t tr)
  case 0
  show ?case by simp
next
  case (Suc n)
  let ?it = "\<lparr>it_cursor = c, it_results = rs,
               it_decision = Wait (first_of (declared_dependencies plan c))\<rparr>"
  have "executeLoop am plan (Suc n) t (Some c) rs tr =
          executeLoop am plan n (Suc t) (Some c) rs (tr @ [?it])"
    using assms(1,2) by (simp add: decide_wait[OF assms(3)])
  also have "\<dots> = finish plan rs False ((tr @ [?it]) @ replicate n ?it) BudgetSpent"
    by (rule Suc.IH)
  finally show ?case by (simp add: replicate_app_Cons_same)
qed

lemma executePlan_ABC:
  assumes A: "executeStep am 0 (mk_step ''A'' tyA None) = Returns rA" "tr_success rA"
    and B: "executeStep am (Suc 0) (mk_step ''B'' tyB (Some [''A''])) = Throws m"
           "tyB \<noteq> ''search''" "tyB \<noteq> ''navigation''"
  defines "eA \<equiv> \<lparr>stepId = ''A'', success = True,
         data = (case tr_data rA of Some d \<Rightarrow> Some d | None \<Rightarrow> tr_results rA), error = tr_error rA\<rparr>"
  defines "eB \<equiv> \<lparr>stepId = ''B'', success = False, data = None, error = Some m\<rparr>"
  shows "executePlan 5 am (plan_ABC tyA tyB tyC) =
     finish (plan_ABC tyA tyB tyC) [eA, eB] False
       [\<lparr>it_cursor = ''A'', it_results = [], it_decision = Execute rA (Some ''B'')\<rparr>,
        \<lparr>it_cursor = ''B'', it_results = [eA], it_decision = Error m (Some ''C'')\<rparr>,
        \<lparr>it_cursor = ''C'', it_results = [eA, eB], it_decision = Wait (Some ''B'')\<rparr>,
        \<lparr>it_cursor = ''C'', it_results = [eA, eB], it_decision = Wait (Some ''B'')\<rparr>,
        \<lparr>it_cursor = ''C'', it_results = [eA, eB], it_decision = Wait (Some ''B'')\<rparr>]
       BudgetSpent"
proof -
  let ?plan = "plan_ABC tyA tyB tyC"
  have fA: "find (\<lambda>s. step_id s = ''A'') (steps ?plan) = Some (mk_step ''A'' tyA None)"
   and fB: "find (\<lambda>s. step_id s = ''B'') (steps ?plan) = Some (mk_step ''B'' tyB (Some [''A'']))"
   and fC: "find (\<lambda>s. step_id s = ''C'') (steps ?plan) = Some (mk_step ''C'' tyC (Some [''B'']))"
    by (simp_all add: plan_ABC_def mk_plan_def mk_step_def)
  have ne: "''A'' \<noteq> []" "''B'' \<noteq> []" by simp_all
  have nA: "getNextStepId ?plan ''A'' = Some ''B''" and nB: "getNextStepId ?plan ''B'' = Some ''C''"
    by (simp_all add: getNextStepId_def plan_ABC_def mk_plan_def mk_step_def)
  have dA: "decideNextAction ?plan ''A'' [] am 0 = Execute rA (Some ''B'')"
    using A(1) by (simp add: decideNextAction_def fA dispatch_def nA mk_step_def)
  have uB: "unmet_dependencies ?plan ''B'' [eA] = []"
    by (simp add: unmet_dependencies_def declared_dependencies_def fB mk_step_def
        dependency_met_def eA_def)
  have dB: "decideNextAction ?plan ''B'' [eA] am (Suc 0) = Error m (Some ''C'')"
    using B by (simp add: decide_dispatch[OF fB uB] dispatch_def handleStepError_found[OF fB] nB mk_step_def)
  have uC: "unmet_dependencies ?plan ''C'' [eA, eB] \<noteq> []"
    by (simp add: unmet_dependencies_def declared_dependencies_def fC mk_step_def
        dependency_met_def eA_def eB_def)
  have wC: "first_of (declared_dependencies ?plan ''C'') = Some ''B''"
    by (simp add: declared_dependencies_def fC mk_step_def first_of_def)
  have start: "steps ?plan = mk_step ''A'' tyA None # [mk_step ''B'' tyB (Some [''A'']), mk_step ''C'' tyC (Some [''B''])]"
    by (simp add: plan_ABC_def mk_plan_def)
  have "executePlan 5 am ?plan = executeLoop am ?plan (Suc (Suc (Suc (Suc (Suc 0))))) 0 (Some ''A'') [] []"
    by (simp add: executePlan_def start numeral_eq_Suc mk_step_def)
  also have "\<dots> = executeLoop am ?plan (Suc (Suc (Suc (Suc 0)))) (Suc 0) (Some ''B'') [eA]
       [\<lparr>it_cursor = ''A'', it_results = [], it_decision = Execute rA (Some ''B'')\<rparr>]"
    unfolding executeLoop_step[OF fA ne(1)] dA using A(2)
    by (simp add: eA_def del: executeLoop.simps)
  also have "\<dots> = executeLoop am ?plan (Suc (Suc (Suc 0))) (Suc (Suc 0)) (Some ''C'') [eA, eB]
       [\<lparr>it_cursor = ''A'', it_results = [], it_decision = Execute rA (Some ''B'')\<rparr>,
        \<lparr>it_cursor = ''B'', it_results = [eA], it_decision = Error m (Some ''C'')\<rparr>]"
    unfolding executeLoop_step[OF fB ne(2)] dB
    by (simp add: eB_def del: executeLoop.simps)
  also have "\<dots> = finish ?plan [eA, eB] False
       ([\<lparr>it_cursor = ''A'', it_results = [], it_decision = Execute rA (Some ''B'')\<rparr>,
        \<lparr>it_cursor = ''B'', it_results = [eA], it_decision = Error m (Some ''C'')\<rparr>] @
        replicate (Suc (Suc (Suc 0))) \<lparr>it_cursor = ''C'', it_results = [eA, eB],
           it_decision = Wait (first_of (declared_dependencies ?plan ''C''))\<rparr>) BudgetSpent"
    by (rule executeLoop_waiting[OF fC _ uC]) simp
  finally show ?thesis by (simp add: wC)
qed

text \<open>
  C4 (as amended). When \<^verbatim>\<open>executeStep\<close> throws for the current step, the decision is an
  error whose next step is the same step for the types search and navigation and the next
  step of the plan otherwise; when the handler returns a result, successful or not, the
  decision is an execute that advances to the next step of the plan whatever the type. In
  the plan \<open>A \<rightarrow> B \<rightarrow> C\<close> with A succeeding and the non-retryable B throwing, the run records
  A's result and a failure for B, then waits on B at C until the budget is spent: nothing
  is recorded for C and the result has success = false.
\<close>

theorem step_failure_policy:
  "(find (\<lambda>s. step_id s = cur) (steps plan) = Some st \<and> unmet_dependencies plan cur rs = [] \<and>
    executeStep am t st = Throws m \<longrightarrow>
      decideNextAction plan cur rs am t =
        Error m (if step_type st = ''search'' \<or> step_type st = ''navigation'' then Some cur
                 else getNextStepId plan cur)) \<and>
   (find (\<lambda>s. step_id s = cur2) (steps plan2) = Some st2 \<and> unmet_dependencies plan2 cur2 rs2 = [] \<and>
    executeStep am2 t2 st2 = Returns r \<longrightarrow>
      decideNextAction plan2 cur2 rs2 am2 t2 = Execute r (getNextStepId plan2 cur2)) \<and>
   (executeStep am3 0 (mk_step ''A'' tyA None) = Returns rA \<and> tr_success rA \<and>
    executeStep am3 1 (mk_step ''B'' tyB (Some [''A''])) = Throws mB \<and>
    tyB \<noteq> ''search'' \<and> tyB \<noteq> ''navigation'' \<longrightarrow>
      map stepId (recorded (executePlan 5 am3 (plan_ABC tyA tyB tyC))) = [''A'', ''B''] \<and>
      map success (recorded (executePlan 5 am3 (plan_ABC tyA tyB tyC))) = [True, False] \<and>
      map it_decision (trace (executePlan 5 am3 (plan_ABC tyA tyB tyC))) =
        [Execute rA (Some ''B''), Error mB (Some ''C''),
         Wait (Some ''B''), Wait (Some ''B''), Wait (Some ''B'')] \<and>
      left_by (executePlan 5 am3 (plan_ABC tyA tyB tyC)) = BudgetSpent \<and>
      res_success (outcome (executePlan 5 am3 (plan_ABC tyA tyB tyC))) = False)"
proof (intro conjI impI)
  assume h: "find (\<lambda>s. step_id s = cur) (steps plan) = Some st \<and> unmet_dependencies plan cur rs = [] \<and>
    executeStep am t st = Throws m"
  then have d: "decideNextAction plan cur rs am t = dispatch plan cur st am t"
    using decide_dispatch by blast
  show "decideNextAction plan cur rs am t =
           Error m (if step_type st = ''search'' \<or> step_type st = ''navigation'' then Some cur
                    else getNextStepId plan cur)"
    using h handleStepError_found[of cur plan st] by (simp add: d dispatch_def)
next
  assume h: "find (\<lambda>s. step_id s = cur2) (steps plan2) = Some st2 \<and>
    unmet_dependencies plan2 cur2 rs2 = [] \<and> executeStep am2 t2 st2 = Returns r"
  then have d: "decideNextAction plan2 cur2 rs2 am2 t2 = dispatch plan2 cur2 st2 am2 t2"
    using decide_dispatch by blast
  show "decideNextAction plan2 cur2 rs2 am2 t2 = Execute r (getNextStepId plan2 cur2)"
    using h by (simp add: d dispatch_def)
next
  assume h: "executeStep am3 0 (mk_step ''A'' tyA None) = Returns rA \<and> tr_success rA \<and>
    executeStep am3 1 (mk_step ''B'' tyB (Some [''A''])) = Throws mB \<and>
    tyB \<noteq> ''search'' \<and> tyB \<noteq> ''navigation''"
  define eA where "eA = \<lparr>stepId = ''A'', success = True,
         data = (case tr_data rA of Some d \<Rightarrow> Some d | None \<Rightarrow> tr_results rA), error = tr_error rA\<rparr>"
  define eB where "eB = \<lparr>stepId = ''B'', success = False, data = None, error = Some mB\<rparr>"
  from h have run: "executePlan 5 am3 (plan_ABC tyA tyB tyC) = finish (plan_ABC tyA tyB tyC)
       [eA, eB] False
       [\<lparr>it_cursor = ''A'', it_results = [], it_decision = Execute rA (Some ''B'')\<rparr>,
        \<lparr>it_cursor = ''B'', it_results = [eA], it_decision = Error mB (Some ''C'')\<rparr>,
        \<lparr>it_cursor = ''C'', it_results = [eA, eB], it_decision = Wait (Some ''B'')\<rparr>,
        \<lparr>it_cursor = ''C'', it_results = [eA, eB], it_decision = Wait (Some ''B'')\<rparr>,
        \<lparr>it_cursor = ''C'', it_results = [eA, eB], it_decision = Wait (Some ''B'')\<rparr>]
       BudgetSpent"
    unfolding eA_def eB_def using executePlan_ABC[of am3 tyA rA tyB mB tyC] by simp
  show "map stepId (recorded (executePlan 5 am3 (plan_ABC tyA tyB tyC))) = [''A'', ''B'']"
    by (simp add: run finish_def eA_def eB_def)
  show "map success (recorded (executePlan 5 am3 (plan_ABC tyA tyB tyC))) = [True, False]"
    by (simp add: run finish_def eA_def eB_def)
  show "map it_decision (trace (executePlan 5 am3 (plan_ABC tyA tyB tyC))) =
        [Execute rA (Some ''B''), Error mB (Some ''C''),
         Wait (Some ''B''), Wait (Some ''B''), Wait (Some ''B'')]"
    by (simp add: run finish_def)
  show "left_by (executePlan 5 am3 (plan_ABC tyA tyB tyC)) = BudgetSpent"
    by (simp add: run finish_def)
  show "res_success (outcome (executePlan 5 am3 (plan_ABC tyA tyB tyC))) = False"
    by (simp add: run finish_def createExecutionResult_def)
qed

theorem step_failure_policy_witness:
  "decideNextAction (plan_ABC ''search'' ''highlight'' ''analysis'') ''B''
      [\<lparr>stepId = ''A'', success = True, data = Some (Items [''hit'']), error = None\<rparr>]
      demo_actions 1 = Error ''highlight failed'' (Some ''C'') \<and>
   decideNextAction plan_ABX ''B'' [] demo_actions 1 =
      Execute \<lparr>tr_success = False, tr_data = None, tr_results = Some (Items []),
               tr_error = Some ''navigation failed''\<rparr> (Some ''X'') \<and>
   map stepId (recorded (executePlan 5 demo_actions (plan_ABC ''search'' ''highlight'' ''analysis''))) =
      [''A'', ''B''] \<and>
   left_by (executePlan 5 demo_actions (plan_ABC ''search'' ''highlight'' ''analysis'')) = BudgetSpent"
proof -
  let ?p = "plan_ABC ''search'' ''highlight'' ''analysis''"
  let ?eA = "\<lparr>stepId = ''A'', success = True, data = Some (Items [''hit'']), error = None\<rparr>"
  let ?rA = "\<lparr>tr_success = True, tr_data = None, tr_results = Some (Items [''hit'']), tr_error = None\<rparr>"
  let ?rB = "\<lparr>tr_success = False, tr_data = None, tr_results = Some (Items []),
               tr_error = Some ''navigation failed''\<rparr>"
  have a: "find (\<lambda>s. step_id s = ''B'') (steps ?p) = Some (mk_step ''B'' ''highlight'' (Some [''A'']))"
          "unmet_dependencies ?p ''B'' [?eA] = []"
          "executeStep demo_actions 1 (mk_step ''B'' ''highlight'' (Some [''A''])) = Throws ''highlight failed''"
          "getNextStepId ?p ''B'' = Some ''C''"
    by code_simp+
  have b: "find (\<lambda>s. step_id s = ''B'') (steps plan_ABX) = Some (mk_step ''B'' ''navigation'' None)"
          "unmet_dependencies plan_ABX ''B'' [] = []"
          "executeStep demo_actions 1 (mk_step ''B'' ''navigation'' None) = Returns ?rB"
          "getNextStepId plan_ABX ''B'' = Some ''X''"
    by code_simp+
  have c: "executeStep demo_actions 0 (mk_step ''A'' ''search'' None) = Returns ?rA"
    by code_simp
  show ?thesis
    using a b c step_failure_policy[of "''B''" ?p "mk_step ''B'' ''highlight'' (Some [''A''])" "[?eA]"
        demo_actions 1 "''highlight failed''"
        "''B''" plan_ABX "mk_step ''B'' ''navigation'' None" "[]" demo_actions 1 ?rB
        demo_actions "''search''" ?rA "''highlight''" "''highlight failed''" "''analysis''"]
    by (simp add: mk_step_def)
qed

text \<open>
  C4 as stated fails on the plan \<open>A \<rightarrow> B \<rightarrow> C\<close>: after the failure of the non-retryable B the
  run records nothing for C (C waits on B until the budget is spent).
\<close>

theorem skip_then_blocked_counterexample:
  "map stepId (recorded (executePlan maxExecutionSteps demo_actions
        (plan_ABC ''search'' ''highlight'' ''analysis''))) = [''A'', ''B''] \<and>
   map success (recorded (executePlan maxExecutionSteps demo_actions
        (plan_ABC ''search'' ''highlight'' ''analysis''))) = [True, False] \<and>
   \<not> list_ex (\<lambda>e. stepId e = ''C'') (recorded (executePlan maxExecutionSteps demo_actions
        (plan_ABC ''search'' ''highlight'' ''analysis'')))"
  by code_simp

section \<open>Ranking\<close>






lemma rank_memory_cases:
  "rank_memory embs opts q m = [] \<or> (\<exists>s. rank_memory embs opts q m = [\<lparr>item = m, score = s\<rparr>])"
  by (simp add: rank_memory_def split: option.splits jsnum.splits)



lemma search_cases:
  "(\<exists>q. embeddingService queryText = Returns (Some q) \<and>
        search_body embeddingService store queryText opts =
          Returns (take (limit opts) (js_sort by_score_desc (candidates store opts q)))) \<or>
   ((\<forall>q. embeddingService queryText \<noteq> Returns (Some q)) \<and> search_body embeddingService store queryText opts = Returns [])"
  by (cases "embeddingService queryText") (auto simp: search_body_def search_try_def split: option.splits)



section \<open>Exclusion and failure in search\<close>

lemma set_insert_sorted: "set (insert_sorted cmp x ys) = insert x (set ys)"
  by (induction ys) auto

lemma set_js_sort: "set (js_sort cmp xs) = set xs"
  unfolding js_sort_def by (induction xs) (simp_all add: set_insert_sorted)

lemma in_candidates:
  assumes "r \<in> set (candidates store opts q)"
  shows "rank_memory (embeddings store) opts q (item r) = [r]"
proof -
  from assms obtain m where m: "r \<in> set (rank_memory (embeddings store) opts q m)"
    by (auto simp: candidates_def)
  from rank_memory_cases[of "embeddings store" opts q m] m
  obtain s where "rank_memory (embeddings store) opts q m = [\<lparr>item = m, score = s\<rparr>]"
    by auto
  with m show ?thesis by simp
qed

lemma in_search:
  assumes "search_body embeddingService store queryText opts = Returns rs" "r \<in> set rs"
  shows "\<exists>q. embeddingService queryText = Returns (Some q) \<and> r \<in> set (candidates store opts q)"
proof -
  from search_cases[of embeddingService queryText store opts] assms
  obtain q where q: "embeddingService queryText = Returns (Some q)"
    "rs = take (limit opts) (js_sort by_score_desc (candidates store opts q))"
    by auto
  from q(2) assms(2) have "r \<in> set (js_sort by_score_desc (candidates store opts q))"
    by (auto dest: in_set_takeD)
  with q(1) show ?thesis by (auto simp: set_js_sort)
qed

lemma search_body_resolves: "\<exists>rs. search_body embeddingService store queryText opts = Returns rs"
  using search_cases[of embeddingService queryText store opts] by auto

lemma search_resolves:
  assumes "destructure arg = Returns opts"
  shows "search embeddingService store queryText arg = search_body embeddingService store queryText opts"
    and "\<exists>rs. search embeddingService store queryText arg = Returns rs"
proof -
  show eq: "search embeddingService store queryText arg =
            search_body embeddingService store queryText opts"
    using assms by (simp add: search_def)
  show "\<exists>rs. search embeddingService store queryText arg = Returns rs"
    unfolding eq by (rule search_body_resolves)
qed

lemma rank_memory_other_dimension:
  assumes "length q \<noteq> 3072"
  shows "rank_memory embs opts q m =
           (if rankable embs opts m \<and> minScore opts \<le> 0 then [\<lparr>item = m, score = 0\<rparr>] else [])"
proof -
  have zero: "cosineSimilarity q w = Num 0" for w
    using assms by (simp add: cosineSimilarity_def)
  show ?thesis
    by (simp add: rank_memory_def rankable_def zero split: option.splits)
qed

lemma candidates_other_dimension:
  assumes "length q \<noteq> 3072"
  shows "candidates store opts q =
           (if minScore opts \<le> 0
            then map (\<lambda>m. \<lparr>item = m, score = 0\<rparr>) (filter (rankable (embeddings store) opts) (memories store))
            else [])"
proof -
  have "concat (map (rank_memory embs opts q) ms) =
          (if minScore opts \<le> 0
           then map (\<lambda>m. \<lparr>item = m, score = 0\<rparr>) (filter (rankable embs opts) ms) else [])" for embs ms
    by (induction ms) (simp_all add: rank_memory_other_dimension[OF assms])
  then show ?thesis by (simp add: candidates_def)
qed

lemma insert_sorted_zero:
  assumes "score x = 0" "\<forall>r\<in>set xs. score r = 0"
  shows "insert_sorted by_score_desc x xs = x # xs"
  using assms by (cases xs) (simp_all add: by_score_desc_def)

lemma js_sort_all_zero:
  assumes "\<forall>r\<in>set xs. score r = 0"
  shows "js_sort by_score_desc xs = xs"
  using assms
proof (induction xs)
  case Nil
  show ?case by (simp add: js_sort_def)
next
  case (Cons x xs)
  then have IH: "js_sort by_score_desc xs = xs" by simp
  have "js_sort by_score_desc (x # xs) = insert_sorted by_score_desc x (js_sort by_score_desc xs)"
    by (simp add: js_sort_def)
  also have "\<dots> = x # xs"
    unfolding IH using Cons.prems by (intro insert_sorted_zero) simp_all
  finally show ?case .
qed

lemma search_body_other_dimension:
  assumes "embeddingService queryText = Returns (Some q)" "length q \<noteq> 3072"
  shows "search_body embeddingService store queryText opts =
           Returns (take (limit opts)
             (if minScore opts \<le> 0
              then map (\<lambda>m. \<lparr>item = m, score = 0\<rparr>) (filter (rankable (embeddings store) opts) (memories store))
              else []))"
proof -
  have "js_sort by_score_desc (candidates store opts q) = candidates store opts q"
    by (rule js_sort_all_zero) (auto simp: candidates_other_dimension[OF assms(2)])
  then show ?thesis
    using assms(1)
    by (simp add: search_body_def search_try_def candidates_other_dimension[OF assms(2)])
qed

text \<open>
  C6 (as amended). With an options object (or none), search always resolves. A memory
  whose stored vector has a number of components other than 3072 is in no result, whatever
  the dimension of the provider. When the query vector itself does not have 3072
  components, the memories that pass the type filter and have a stored vector of 3072
  components are still ranked: with a threshold of at most 0 search returns them all, in
  the order of the collection and up to the limit, each with score 0 (and with a positive
  threshold it returns nothing).
\<close>

theorem search_dimension_guard:
  "(destructure arg = Returns opts \<longrightarrow>
      (\<exists>rs. search embeddingService store queryText arg = Returns rs)) \<and>
   (destructure arg = Returns opts \<and>
    find (\<lambda>e. emb_id e = mem_id m) (embeddings store) = Some e \<and> embedding e = Some v \<and>
    length v \<noteq> 3072 \<and> search embeddingService store queryText arg = Returns rs \<longrightarrow>
      m \<notin> item ` set rs) \<and>
   (destructure arg = Returns opts \<and>
    embeddingService queryText = Returns (Some q) \<and> length q \<noteq> 3072 \<longrightarrow>
      search embeddingService store queryText arg =
        Returns (take (limit opts)
          (if minScore opts \<le> 0
           then map (\<lambda>m. \<lparr>item = m, score = 0\<rparr>)
                  (filter (rankable (embeddings store) opts) (memories store))
           else [])))"
proof (intro conjI impI)
  assume "destructure arg = Returns opts"
  then show "\<exists>rs. search embeddingService store queryText arg = Returns rs"
    by (rule search_resolves(2))
next
  assume h: "destructure arg = Returns opts \<and>
    find (\<lambda>e. emb_id e = mem_id m) (embeddings store) = Some e \<and> embedding e = Some v \<and>
    length v \<noteq> 3072 \<and> search embeddingService store queryText arg = Returns rs"
  then have body: "search_body embeddingService store queryText opts = Returns rs"
    using search_resolves(1)[of arg opts embeddingService store queryText] by simp
  show "m \<notin> item ` set rs"
  proof
    assume "m \<in> item ` set rs"
    then obtain r where r: "r \<in> set rs" "item r = m" by auto
    with body obtain q' where "r \<in> set (candidates store opts q')"
      using in_search by blast
    then have "rank_memory (embeddings store) opts q' m = [r]"
      using in_candidates r(2) by blast
    moreover have "rank_memory (embeddings store) opts q' m = []"
      using h by (simp add: rank_memory_def)
    ultimately show False by simp
  qed
next
  assume h: "destructure arg = Returns opts \<and>
    embeddingService queryText = Returns (Some q) \<and> length q \<noteq> 3072"
  then have "search embeddingService store queryText arg =
             search_body embeddingService store queryText opts"
    using search_resolves(1) by blast
  with h show "search embeddingService store queryText arg =
        Returns (take (limit opts)
          (if minScore opts \<le> 0
           then map (\<lambda>m. \<lparr>item = m, score = 0\<rparr>)
                  (filter (rankable (embeddings store) opts) (memories store))
           else []))"
    using search_body_other_dimension[of embeddingService queryText q store opts] by simp
qed

lemma zero_threshold_options:
  "destructure (Object zero_threshold) =
     Returns \<lparr>limit = 10, type_filter = Some ''web_page'', minScore = 0\<rparr>"
  by (simp add: destructure_def zero_threshold_def)

lemma mixed_store_rankable:
  "filter (rankable (embeddings mixed_store) \<lparr>limit = 10, type_filter = Some ''web_page'', minScore = 0\<rparr>)
     (memories mixed_store) = [page_a]"
  by (simp add: rankable_def mixed_store_def page_a_def page_b_def)

theorem search_dimension_guard_witness:
  "search provider_3d mixed_store ''fox'' (Object zero_threshold) =
     Returns [\<lparr>item = page_a, score = 0\<rparr>] \<and>
   page_b \<notin> item ` set [\<lparr>item = page_a, score = 0\<rparr>]"
proof -
  let ?opts = "\<lparr>limit = 10, type_filter = Some ''web_page'', minScore = 0\<rparr>"
  let ?e = "\<lparr>emb_id = ''m2'', embedding = Some [Num 1, Num 0, Num 0]\<rparr>"
  have f: "find (\<lambda>e. emb_id e = mem_id page_b) (embeddings mixed_store) = Some ?e"
    by (simp add: mixed_store_def page_b_def)
  have g: "provider_3d ''fox'' = Returns (Some [Num 1, Num 0, Num 0])"
    by (simp add: provider_3d_def)
  have r: "search provider_3d mixed_store ''fox'' (Object zero_threshold) =
             Returns [\<lparr>item = page_a, score = 0\<rparr>]"
    using g zero_threshold_options mixed_store_rankable
      search_dimension_guard[of "Object zero_threshold" ?opts provider_3d mixed_store "''fox''"
        page_b ?e "[Num 1, Num 0, Num 0]" "[\<lparr>item = page_a, score = 0\<rparr>]" "[Num 1, Num 0, Num 0]"]
    by simp
  have "page_b \<notin> item ` set [\<lparr>item = page_a, score = 0\<rparr>]"
    using f r zero_threshold_options
      search_dimension_guard[of "Object zero_threshold" ?opts provider_3d mixed_store "''fox''"
        page_b ?e "[Num 1, Num 0, Num 0]" "[\<lparr>item = page_a, score = 0\<rparr>]" "[Num 1, Num 0, Num 0]"]
    by simp
  with r show ?thesis by simp
qed

lemma search_mixed_store:
  "search provider_3d mixed_store ''fox'' (Object zero_threshold) =
     Returns [\<lparr>item = page_a, score = 0\<rparr>]"
proof -
  have "search provider_3d mixed_store ''fox'' (Object zero_threshold) =
        search_body provider_3d mixed_store ''fox'' \<lparr>limit = 10, type_filter = Some ''web_page'', minScore = 0\<rparr>"
    using zero_threshold_options by (rule search_resolves(1))
  also have "\<dots> = Returns [\<lparr>item = page_a, score = 0\<rparr>]"
    using search_body_other_dimension[of provider_3d "''fox''" "[Num 1, Num 0, Num 0]" mixed_store
        "\<lparr>limit = 10, type_filter = Some ''web_page'', minScore = 0\<rparr>"]
    by (simp add: provider_3d_def mixed_store_rankable)
  finally show ?thesis .
qed

text \<open>
  C6 as stated fails when the provider's dimension is not 3072: with a three-dimensional
  provider and threshold 0, the memory whose stored vector has 3072 components is ranked
  (with score 0) and returned.
\<close>

theorem search_dimension_counterexample:
  "provider_3d ''fox'' = Returns (Some [Num 1, Num 0, Num 0]) \<and>
   find (\<lambda>e. emb_id e = mem_id page_a) (embeddings mixed_store) =
     Some \<lparr>emb_id = ''m1'', embedding = Some (replicate 3072 (Num 1))\<rparr> \<and>
   length (replicate 3072 (Num 1)) \<noteq> length [Num 1, Num 0, Num 0] \<and>
   search provider_3d mixed_store ''fox'' (Object zero_threshold) =
     Returns [\<lparr>item = page_a, score = 0\<rparr>]"
proof (intro conjI)
  show "provider_3d ''fox'' = Returns (Some [Num 1, Num 0, Num 0])"
    by (simp add: provider_3d_def)
  show "find (\<lambda>e. emb_id e = mem_id page_a) (embeddings mixed_store) =
     Some \<lparr>emb_id = ''m1'', embedding = Some (replicate 3072 (Num 1))\<rparr>"
    by (simp add: mixed_store_def page_a_def)
  show "length (replicate 3072 (Num 1)) \<noteq> length [Num 1, Num 0, Num 0]"
    by simp
  show "search provider_3d mixed_store ''fox'' (Object zero_threshold) =
     Returns [\<lparr>item = page_a, score = 0\<rparr>]"
    by (rule search_mixed_store)
qed

text \<open>
  C9 (as amended). When the options argument is an object or is omitted, search resolves
  on every query; when the embedding of the query fails (the service rejects, or resolves
  with \<^verbatim>\<open>null\<close>) it resolves with the empty list, which is also what it resolves with on
  a store without memories. When the options argument is \<^verbatim>\<open>null\<close>, the destructuring in
  front of the \<^verbatim>\<open>try\<close> throws and search rejects.
\<close>

theorem search_rejects_only_on_null_options:
  "(destructure arg = Returns opts \<longrightarrow>
      (\<exists>rs. search embeddingService store queryText arg = Returns rs)) \<and>
   (destructure arg = Returns opts \<and>
    (embeddingService queryText = Throws message \<or> embeddingService queryText = Returns None) \<longrightarrow>
      search embeddingService store queryText arg = Returns [] \<and>
      search embeddingService store queryText arg =
        search provider_3d \<lparr>memories = [], embeddings = embeddings store\<rparr> queryText arg) \<and>
   search embeddingService store queryText Null =
     Throws ''TypeError: Cannot destructure property of null''"
proof (intro conjI impI)
  assume "destructure arg = Returns opts"
  then show "\<exists>rs. search embeddingService store queryText arg = Returns rs"
    by (rule search_resolves(2))
next
  assume h: "destructure arg = Returns opts \<and>
    (embeddingService queryText = Throws message \<or> embeddingService queryText = Returns None)"
  then have eq: "search embeddingService' store' queryText arg =
                 search_body embeddingService' store' queryText opts" for embeddingService' store'
    using search_resolves(1) by blast
  from h show r: "search embeddingService store queryText arg = Returns []"
    unfolding eq by (auto simp: search_body_def search_try_def)
  show "search embeddingService store queryText arg =
        search provider_3d \<lparr>memories = [], embeddings = embeddings store\<rparr> queryText arg"
    unfolding r unfolding eq
    by (simp add: search_body_def search_try_def provider_3d_def candidates_def js_sort_def)
next
  show "search embeddingService store queryText Null =
     Throws ''TypeError: Cannot destructure property of null''"
    by (simp add: search_def destructure_def)
qed

theorem search_rejects_only_on_null_options_witness:
  "search provider_down mixed_store ''fox'' Undefined = Returns [] \<and>
   search provider_down mixed_store ''fox'' Null =
     Throws ''TypeError: Cannot destructure property of null''"
proof -
  have d: "destructure Undefined = Returns default_options"
    by (simp add: destructure_def)
  have p: "provider_down ''fox'' = Throws ''Gemini API key not configured''"
    by (simp add: provider_down_def)
  show ?thesis
    using d p search_rejects_only_on_null_options[of Undefined default_options provider_down
        mixed_store "''fox''" "''Gemini API key not configured''"]
    by simp
qed

text \<open>
  C9 as stated fails on the options \<^verbatim>\<open>null\<close>: the call \<^verbatim>\<open>search('fox', null)\<close> rejects,
  with a working embedding service and any store.
\<close>

theorem search_null_options_counterexample:
  "failed (search provider_3d mixed_store ''fox'' Null)"
  by (simp add: search_def destructure_def)

section \<open>Provider fallback\<close>

lemma try_fallbacks_found:
  assumes "find (\<lambda>(n, p). n \<noteq> n1 \<and> \<not> failed (embed p text)) ps = Some (n2, p2)"
    and "embed p2 text = Returns v"
  shows "fst (try_fallbacks (Some n1) ps sv text) = Returns v \<and>
         currentProvider (snd (try_fallbacks (Some n1) ps sv text)) = Some (n2, p2) \<and>
         providers (snd (try_fallbacks (Some n1) ps sv text)) = providers sv"
  using assms
proof (induction ps arbitrary: sv)
  case Nil
  then show ?case by simp
next
  case (Cons a ps)
  obtain n p where a: "a = (n, p)" by (cases a)
  show ?case
  proof (cases "n = n1")
    case True
    with Cons a show ?thesis by simp
  next
    case False
    show ?thesis
    proof (cases "embed p text")
      case (Throws e)
      with Cons a False show ?thesis by simp
    next
      case (Returns w)
      with Cons.prems a False have "n2 = n" "p2 = p" by simp_all
      with Cons.prems(2) Returns a False show ?thesis by simp
    qed
  qed
qed

lemma try_fallbacks_throws:
  assumes "fst (try_fallbacks cur ps sv text) = Throws m"
  shows "m = ''All embedding providers failed'' \<and>
         list_all (\<lambda>(n, p). cur = Some n \<or> failed (embed p text)) ps"
  using assms
proof (induction ps arbitrary: sv)
  case Nil
  then show ?case by simp
next
  case (Cons a ps)
  obtain n p where a: "a = (n, p)" by (cases a)
  show ?case
  proof (cases "cur = Some n")
    case True
    with Cons a show ?thesis by simp
  next
    case False
    show ?thesis
    proof (cases "embed p text")
      case (Throws e)
      with Cons a False show ?thesis by simp
    next
      case (Returns w)
      with Cons.prems a False show ?thesis by simp
    qed
  qed
qed

text \<open>
  C7. Let the current provider P1 fail on the text and let P2 be the first provider in
  registration order, other than P1, whose \<^verbatim>\<open>embed\<close> succeeds, with vector \<open>v\<close>. Then
  \<^verbatim>\<open>getEmbedding\<close> resolves with \<open>v\<close> and makes P2 the current provider, and a second call
  resolves with \<open>v\<close> after calling P2 only. With a current provider registered under its
  key, the call rejects only with the all-providers-failed error, and then every
  registered provider has failed on the text.
\<close>

theorem getEmbedding_sticky_fallback:
  "(currentProvider sv = Some (n1, p1) \<and> failed (embed p1 text) \<and>
    find (\<lambda>(n, p). n \<noteq> n1 \<and> \<not> failed (embed p text)) (providers sv) = Some (n2, p2) \<and>
    embed p2 text = Returns v \<longrightarrow>
      fst (getEmbedding env sv text) = Returns v \<and>
      currentProvider (snd (getEmbedding env sv text)) = Some (n2, p2) \<and>
      getEmbedding env (snd (getEmbedding env sv text)) text =
        (Returns v, (snd (getEmbedding env sv text))
           \<lparr>attempted := attempted (snd (getEmbedding env sv text)) @ [n2]\<rparr>)) \<and>
   (currentProvider sv' = Some (k, c) \<and> map_of (providers sv') k = Some c \<and>
    distinct (map fst (providers sv')) \<and> fst (getEmbedding env sv' text) = Throws m \<longrightarrow>
      m = ''All embedding providers failed'' \<and>
      list_all (\<lambda>(n, p). failed (embed p text)) (providers sv'))"
proof (intro conjI impI)
  assume h: "currentProvider sv = Some (n1, p1) \<and> failed (embed p1 text) \<and>
    find (\<lambda>(n, p). n \<noteq> n1 \<and> \<not> failed (embed p text)) (providers sv) = Some (n2, p2) \<and>
    embed p2 text = Returns v"
  then obtain e where e: "embed p1 text = Throws e" by (cases "embed p1 text") auto
  let ?sv1 = "sv\<lparr>attempted := attempted sv @ [n1]\<rparr>"
  have call: "getEmbedding env sv text = try_fallbacks (Some n1) (providers sv) ?sv1 text"
    using h e by (simp add: getEmbedding_def)
  have fb: "fst (try_fallbacks (Some n1) (providers sv) ?sv1 text) = Returns v \<and>
         currentProvider (snd (try_fallbacks (Some n1) (providers sv) ?sv1 text)) = Some (n2, p2) \<and>
         providers (snd (try_fallbacks (Some n1) (providers sv) ?sv1 text)) = providers ?sv1"
    using h try_fallbacks_found[of n1 "text" "providers sv" n2 p2 v ?sv1] by simp
  show "fst (getEmbedding env sv text) = Returns v"
    using fb by (simp add: call)
  show cur: "currentProvider (snd (getEmbedding env sv text)) = Some (n2, p2)"
    using fb by (simp add: call)
  show "getEmbedding env (snd (getEmbedding env sv text)) text =
        (Returns v, (snd (getEmbedding env sv text))
           \<lparr>attempted := attempted (snd (getEmbedding env sv text)) @ [n2]\<rparr>)"
    using h cur by (simp add: getEmbedding_def[of env "snd (getEmbedding env sv text)"])
next
  assume h: "currentProvider sv' = Some (k, c) \<and> map_of (providers sv') k = Some c \<and>
    distinct (map fst (providers sv')) \<and> fst (getEmbedding env sv' text) = Throws m"
  show "m = ''All embedding providers failed''"
    using h try_fallbacks_throws[of "Some k" "providers sv'" _ "text" m]
    by (auto simp: getEmbedding_def split: js.splits)
  have c: "failed (embed c text)"
    using h by (auto simp: getEmbedding_def split: js.splits)
  have "list_all (\<lambda>(n, p). Some k = Some n \<or> failed (embed p text)) (providers sv')"
    using h try_fallbacks_throws[of "Some k" "providers sv'" _ "text" m]
    by (auto simp: getEmbedding_def split: js.splits)
  moreover have "p = c" if "(k, p) \<in> set (providers sv')" for p
    using that h by (auto dest: map_of_is_SomeI)
  ultimately show "list_all (\<lambda>(n, p). failed (embed p text)) (providers sv')"
    using c by (auto simp: list_all_iff)
qed

theorem getEmbedding_sticky_fallback_witness:
  "fst (getEmbedding no_environment two_providers ''fox'') = Returns [Num 1, Num 0, Num 0] \<and>
   currentProvider (snd (getEmbedding no_environment two_providers ''fox'')) = Some (''local'', P2) \<and>
   getEmbedding no_environment (snd (getEmbedding no_environment two_providers ''fox'')) ''fox'' =
     (Returns [Num 1, Num 0, Num 0], (snd (getEmbedding no_environment two_providers ''fox''))
        \<lparr>attempted := attempted (snd (getEmbedding no_environment two_providers ''fox'')) @ [''local'']\<rparr>)"
proof -
  have h: "currentProvider two_providers = Some (''gemini'', P1)" "failed (embed P1 ''fox'')"
    "find (\<lambda>(n, p). n \<noteq> ''gemini'' \<and> \<not> failed (embed p ''fox'')) (providers two_providers) =
       Some (''local'', P2)"
    "embed P2 ''fox'' = Returns [Num 1, Num 0, Num 0]"
    by (simp_all add: two_providers_def P1_def P2_def)
  show ?thesis
    using h getEmbedding_sticky_fallback[of two_providers "''gemini''" P1 "''fox''" "''local''" P2
        "[Num 1, Num 0, Num 0]" no_environment]
    by simp
qed

section \<open>Chunking and pooling\<close>

subsection \<open>Sizes of plain texts\<close>

lemma utf8_size_ascii:
  assumes "\<forall>u\<in>set s. u < 0x80"
  shows "utf8_size s = length s"
  using assms
proof (induction s rule: utf8_size.induct)
  case 1
  show ?case by simp
next
  case (2 u)
  then show ?case by (simp add: unit_size_def)
next
  case (3 u v rest)
  from "3.prems" have u: "u < 0x80" by simp
  then have "\<not> is_high_surrogate u"
    unfolding is_high_surrogate_def by (simp add: word_less_nat_alt word_le_nat_alt)
  with 3 u show ?case by (simp add: unit_size_def)
qed

lemma plain_units:
  "letter_a < 0x80" "letter_b < 0x80" "full_stop < 0x80" "(0x20 :: code_unit) < 0x80"
  "\<not> is_terminator letter_a" "\<not> is_terminator letter_b" "is_terminator full_stop"
  "\<not> is_space letter_a" "\<not> is_space letter_b" "\<not> is_space full_stop" "is_space 0x20"
  by (simp_all add: letter_a_def letter_b_def full_stop_def is_terminator_def is_space_def)

lemma stop_space_units: "stop_space = [full_stop, 0x20]"
  by (simp add: stop_space_def full_stop_def)


lemma letters_plain:
  "\<forall>c\<in>set (replicate n letter_a). \<not> is_space c \<and> \<not> is_terminator c \<and> c < 0x80"
  "\<forall>c\<in>set (replicate n letter_b). \<not> is_space c \<and> \<not> is_terminator c \<and> c < 0x80"
  by (simp_all add: plain_units)

subsection \<open>Splitting and trimming\<close>

lemma split_sentences_no_terminator:
  assumes "\<forall>c\<in>set s. \<not> is_terminator c"
  shows "split_sentences s = [s]"
  using assms by (subst split_sentences.simps) (simp add: Let_def)

lemma split_sentences_piece:
  assumes "\<forall>c\<in>set s. \<not> is_terminator c" "is_terminator t"
  shows "split_sentences (s @ t # rest) = s # split_sentences (dropWhile is_terminator rest)"
proof -
  have tw: "takeWhile (\<lambda>c. \<not> is_terminator c) (s @ t # rest) = s"
    using assms by (simp add: takeWhile_append2)
  have dw: "dropWhile (\<lambda>c. \<not> is_terminator c) (s @ t # rest) = t # rest"
    using assms by (simp add: dropWhile_append2)
  show ?thesis
    using assms(2) by (subst split_sentences.simps) (simp add: Let_def tw dw)
qed

lemma trim_sentence:
  assumes "\<forall>c\<in>set s. \<not> is_space c" "s \<noteq> []"
  shows "trim (s @ stop_space) = s @ [full_stop]" and "trim s = s"
proof -
  from assms obtain c s' where s: "s = c # s'" "\<not> is_space c" by (cases s) auto
  have l: "\<not> is_space (last s)" using assms by simp
  have r: "rev s = last s # rev (butlast s)"
    using assms(2) by (metis append_butlast_last_id rev.simps(2) rev_append rev_rev_ident append_Nil)
  show "trim (s @ stop_space) = s @ [full_stop]"
    using s by (simp add: trim_def stop_space_units plain_units)
  show "trim s = s"
    using s l r by (simp add: trim_def)
qed

lemma trim_empty: "trim [] = []"
  by (simp add: trim_def)

lemma dropWhile_keep:
  assumes "xs \<noteq> []" "\<not> P (hd xs)"
  shows "dropWhile P (xs @ ys) = xs @ ys"
  using assms by (cases xs) simp_all

subsection \<open>Pooling\<close>

lemma those_map_Some: "those (map Some vs) = Some vs"
  by (induction vs) simp_all

lemma fold_sum_Num:
  assumes "\<forall>xs\<in>set xss. i < length xs"
  shows "fold (\<lambda>v acc. jadd acc (vec_at v i)) (map (map Num) xss) (Num a) = Num (a + (\<Sum>xs\<leftarrow>xss. xs ! i))"
  using assms by (induction xss arbitrary: a) (simp_all add: vec_at_def add.assoc)

lemma average_at_Num:
  assumes "\<forall>xs\<in>set xss. i < length xs" "xss \<noteq> []"
  shows "average_at (map (map Num) xss) i = Num ((\<Sum>xs\<leftarrow>xss. xs ! i) / real (length xss))"
  using assms by (simp add: average_at_def fold_sum_Num)

lemma elementwise_mean_single: "elementwise_mean [xs] = xs"
  by (simp add: elementwise_mean_def map_nth)

lemma average_many:
  assumes "length vs \<ge> 2"
  shows "average3072DEmbeddings (map Some vs) = Returns (Some (map (average_at vs) [0..<3072]))"
proof -
  from assms obtain v1 v2 rest where vs: "vs = v1 # v2 # rest"
    by (cases vs; cases "tl vs") auto
  have "average3072DEmbeddings (map Some vs) =
          (case those (map Some vs) of
             None \<Rightarrow> Throws ''TypeError: Cannot read properties of null''
           | Some ws \<Rightarrow> Returns (Some (map (average_at ws) [0..<3072])))"
    unfolding vs by (simp add: average3072DEmbeddings_def del: those.simps upt.simps)
  then show ?thesis by (simp only: those_map_Some option.case)
qed

lemma average_is_mean:
  assumes "xss \<noteq> []" "\<forall>xs\<in>set xss. length xs = 3072"
  shows "average3072DEmbeddings (map (\<lambda>xs. Some (map Num xs)) xss) =
           Returns (Some (map Num (elementwise_mean xss)))"
proof (cases xss)
  case Nil
  with assms show ?thesis by simp
next
  case (Cons x1 rest)
  show ?thesis
  proof (cases rest)
    case Nil
    with Cons show ?thesis
      by (simp add: average3072DEmbeddings_def elementwise_mean_single)
  next
    case (Cons x2 rest')
    have m: "map (\<lambda>xs. Some (map Num xs)) xss = map Some (map (map Num) xss)" by simp
    have len: "length x1 = 3072" using assms(2) \<open>xss = x1 # rest\<close> by simp
    have "map (average_at (map (map Num) xss)) [0..<3072] =
          map (\<lambda>i. Num ((\<Sum>xs\<leftarrow>xss. xs ! i) / real (length xss))) [0..<3072]"
      using assms by (intro map_cong refl average_at_Num) auto
    also have "\<dots> = map Num (elementwise_mean xss)"
      using \<open>xss = x1 # rest\<close> len by (simp add: elementwise_mean_def)
    finally have avg: "map (average_at (map (map Num) xss)) [0..<3072] = map Num (elementwise_mean xss)" .
    have "average3072DEmbeddings (map Some (map (map Num) xss)) =
            Returns (Some (map (average_at (map (map Num) xss)) [0..<3072]))"
      using \<open>xss = x1 # rest\<close> Cons by (intro average_many) simp
    then show ?thesis unfolding m avg .
  qed
qed

subsection \<open>One level of chunking\<close>

lemma embed_chunks_cong_set:
  assumes "\<forall>c\<in>set cs. f c = g c"
  shows "embed_chunks f cs = embed_chunks g cs"
  using assms by (induction cs) (simp_all cong: option.case_cong js.case_cong)

lemma embed_chunks_direct:
  "embed_chunks (\<lambda>c. Some (d c)) cs = Some (collect (map d cs))"
proof (induction cs)
  case Nil
  show ?case by simp
next
  case (Cons c cs)
  then show ?case by (cases "d c"; cases "collect (map d cs)") simp_all
qed

lemma collect_bodies:
  assumes "\<forall>c\<in>set cs. fetch c = Body (Some (f c))"
  shows "collect (map (direct_embedding fetch) cs) = Returns (map (\<lambda>c. Some (f c)) cs)"
  using assms by (induction cs) (simp_all add: direct_embedding_def)

lemma getGemini_one_level:
  assumes "utf8_size text > 35000" "apiKey \<noteq> []" "\<forall>c\<in>set (make_chunks text). utf8_size c \<le> 35000"
  shows "getGemini3072DEmbedding (Suc (Suc fuel)) apiKey fetch text =
           Some (case collect (map (direct_embedding fetch) (make_chunks text)) of
                   Throws message \<Rightarrow> Throws message
                 | Returns es \<Rightarrow> average3072DEmbeddings es)"
proof -
  have "embed_chunks (getGemini3072DEmbedding (Suc fuel) apiKey fetch) (make_chunks text) =
        embed_chunks (\<lambda>c. Some (direct_embedding fetch c)) (make_chunks text)"
    using assms(2,3) by (intro embed_chunks_cong_set) auto
  then show ?thesis
    using assms(1,2)
    by (simp add: getChunked3072DEmbedding_def embed_chunks_direct del: getGemini3072DEmbedding.simps
          add: getGemini3072DEmbedding.simps(2)[of "Suc fuel"] split: js.splits)
qed

lemma getGemini_many_chunks:
  assumes "utf8_size text > 35000" "apiKey \<noteq> []" "length (make_chunks text) \<ge> 2"
    and "\<forall>c\<in>set (make_chunks text). utf8_size c \<le> 35000 \<and> fetch c = Body (Some (vec c))"
  shows "getGemini3072DEmbedding (Suc (Suc fuel)) apiKey fetch text =
           Some (Returns (Some (map (average_at (map vec (make_chunks text))) [0..<3072])))"
proof -
  let ?cs = "make_chunks text"
  have run: "getGemini3072DEmbedding (Suc (Suc fuel)) apiKey fetch text =
          Some (case collect (map (direct_embedding fetch) ?cs) of
                  Throws message \<Rightarrow> Throws message
                | Returns es \<Rightarrow> average3072DEmbeddings es)"
    using assms by (intro getGemini_one_level) simp_all
  have "collect (map (direct_embedding fetch) ?cs) = Returns (map (\<lambda>c. Some (vec c)) ?cs)"
    using assms(4) by (intro collect_bodies) simp
  moreover have "map (\<lambda>c. Some (vec c)) ?cs = map Some (map vec ?cs)" by simp
  moreover have "average3072DEmbeddings (map Some (map vec ?cs)) =
        Returns (Some (map (average_at (map vec ?cs)) [0..<3072]))"
    using assms(3) by (intro average_many) simp
  ultimately show ?thesis
    unfolding run by (simp del: upt.simps)
qed

subsection \<open>The chunks of four texts\<close>

lemma size_letters:
  "utf8_size (replicate n letter_a) = n"
  "utf8_size (replicate n letter_a @ [full_stop]) = Suc n"
  "utf8_size (replicate n letter_b @ [full_stop]) = Suc n"
  "utf8_size (replicate n full_stop) = n"
  "utf8_size (replicate n letter_a @ replicate m full_stop) = n + m"
  "utf8_size (replicate n letter_a @ [full_stop] @ replicate m letter_b @ [full_stop]) = n + m + 2"
  "utf8_size (replicate n letter_a @ stop_space @ replicate m letter_b @ stop_space) = n + m + 4"
proof -
  show "utf8_size (replicate n letter_a) = n"
    by (subst utf8_size_ascii) (auto simp: plain_units)
  show "utf8_size (replicate n letter_a @ [full_stop]) = Suc n"
    by (subst utf8_size_ascii) (auto simp: plain_units)
  show "utf8_size (replicate n letter_b @ [full_stop]) = Suc n"
    by (subst utf8_size_ascii) (auto simp: plain_units)
  show "utf8_size (replicate n full_stop) = n"
    by (subst utf8_size_ascii) (auto simp: plain_units)
  show "utf8_size (replicate n letter_a @ replicate m full_stop) = n + m"
    by (subst utf8_size_ascii) (auto simp: plain_units)
  show "utf8_size (replicate n letter_a @ [full_stop] @ replicate m letter_b @ [full_stop]) = n + m + 2"
    by (subst utf8_size_ascii) (auto simp: plain_units)
  show "utf8_size (replicate n letter_a @ stop_space @ replicate m letter_b @ stop_space) = n + m + 4"
    by (subst utf8_size_ascii) (auto simp: plain_units stop_space_units)
qed

lemma size_two_sentences: "utf8_size two_sentences = 40002"
  unfolding two_sentences_def using size_letters(6)[of 20000 20000] by simp

lemma sentences_of_only_stops: "sentences_of only_stops = []"
proof -
  have "split_sentences only_stops = [Nil, Nil]"
    unfolding only_stops_def
    by (subst split_sentences.simps, subst split_sentences.simps)
       (simp add: Let_def plain_units)
  then show ?thesis
    by (simp add: sentences_of_def trim_empty)
qed

lemma make_chunks_only_stops: "make_chunks only_stops = []"
  by (simp add: make_chunks_def sentences_of_only_stops trim_empty)

lemma sentences_of_two_sentences:
  "sentences_of two_sentences = [replicate 20000 letter_a, replicate 20000 letter_b]"
proof -
  let ?a = "replicate 20000 letter_a" and ?b = "replicate 20000 letter_b"
  have "split_sentences (?b @ [full_stop]) = ?b # split_sentences (dropWhile is_terminator [])"
    using split_sentences_piece[of ?b full_stop "[]"] letters_plain(2)[of 20000]
    by (simp add: plain_units)
  then have sb: "split_sentences (?b @ [full_stop]) = [?b, []]"
    by (simp add: split_sentences_no_terminator)
  have "dropWhile is_terminator (?b @ [full_stop]) = ?b @ [full_stop]"
    by (rule dropWhile_keep) (simp_all add: plain_units)
  then have "split_sentences two_sentences = ?a # split_sentences (?b @ [full_stop])"
    unfolding two_sentences_def
    using split_sentences_piece[of ?a full_stop "?b @ [full_stop]"] letters_plain(1)[of 20000]
    by (simp add: plain_units)
  then have ss: "split_sentences two_sentences = [?a, ?b, []]"
    by (simp add: sb)
  have ta: "trim ?a = ?a" using trim_sentence(2)[of ?a] letters_plain(1)[of 20000] by auto
  have tb: "trim ?b = ?b" using trim_sentence(2)[of ?b] letters_plain(2)[of 20000] by auto
  show ?thesis
    by (simp add: sentences_of_def ss ta tb trim_empty)
qed

lemma make_chunks_two_sentences:
  "make_chunks two_sentences =
     [replicate 20000 letter_a @ [full_stop], replicate 20000 letter_b @ [full_stop]]"
proof -
  let ?a = "replicate 20000 letter_a" and ?b = "replicate 20000 letter_b"
  have ta: "trim (?a @ stop_space) = ?a @ [full_stop]"
    using trim_sentence(1)[of ?a] letters_plain(1)[of 20000] by auto
  have tb: "trim (?b @ stop_space) = ?b @ [full_stop]"
    using trim_sentence(1)[of ?b] letters_plain(2)[of 20000] by auto
  have l: "length stop_space = 2" by (simp add: stop_space_def)
  have g: "fold chunk_step [?a, ?b] ([], []) = ([?a @ [full_stop]], ?b @ stop_space)"
    using ta by (simp add: chunk_step_def size_letters(7) l)
  show ?thesis
    unfolding make_chunks_def sentences_of_two_sentences g by (simp add: tb)
qed

lemma make_chunks_single_sentence:
  assumes "sentences_of text = [replicate n letter_a]" "n > 50"
  shows "make_chunks text = [replicate n letter_a @ [full_stop]]"
proof -
  let ?a = "replicate n letter_a"
  have ta: "trim (?a @ stop_space) = ?a @ [full_stop]"
    using trim_sentence(1)[of ?a] letters_plain(1)[of n] assms(2) by auto
  have g: "fold chunk_step [?a] ([], []) = ([], ?a @ stop_space)"
    by (simp add: chunk_step_def)
  show ?thesis
    unfolding make_chunks_def assms(1) g using assms(2) by (simp add: ta)
qed

lemma sentences_of_letters:
  assumes "n > 20"
  shows "sentences_of (replicate n letter_a) = [replicate n letter_a]"
    and "sentences_of (replicate n letter_a @ [full_stop]) = [replicate n letter_a]"
    and "sentences_of (replicate n letter_a @ full_stop # replicate m full_stop) = [replicate n letter_a]"
proof -
  let ?a = "replicate n letter_a"
  have ta: "trim ?a = ?a" using trim_sentence(2)[of ?a] letters_plain(1)[of n] assms by auto
  have s1: "split_sentences ?a = [?a]"
    using letters_plain(1)[of n] by (intro split_sentences_no_terminator) auto
  have "split_sentences (?a @ full_stop # replicate k full_stop) =
          ?a # split_sentences (dropWhile is_terminator (replicate k full_stop))" for k
    using letters_plain(1)[of n] by (intro split_sentences_piece) (simp_all add: plain_units)
  then have s2: "split_sentences (?a @ full_stop # replicate k full_stop) = [?a, []]" for k
    by (simp add: plain_units split_sentences_no_terminator)
  show "sentences_of ?a = [?a]"
    using assms by (simp add: sentences_of_def s1 ta)
  show "sentences_of (?a @ full_stop # replicate m full_stop) = [?a]"
    using assms by (simp add: sentences_of_def s2 ta trim_empty)
  show "sentences_of (?a @ [full_stop]) = [?a]"
    using assms s2[of 0] by (simp add: sentences_of_def ta trim_empty)
qed

lemma make_chunks_padded_sentence:
  "make_chunks padded_sentence = [replicate 30000 letter_a @ [full_stop]]"
proof -
  have "(5001::nat) = Suc 5000" by simp
  then have "replicate 5001 full_stop = full_stop # replicate 5000 full_stop"
    by (simp only: replicate_Suc)
  then have p: "padded_sentence = replicate 30000 letter_a @ full_stop # replicate 5000 full_stop"
    by (simp only: padded_sentence_def)
  show ?thesis
    by (rule make_chunks_single_sentence) (simp_all add: p sentences_of_letters(3))
qed

lemma make_chunks_one_long_sentence:
  "make_chunks one_long_sentence = [one_long_sentence @ [full_stop]]"
  "make_chunks (one_long_sentence @ [full_stop]) = [one_long_sentence @ [full_stop]]"
  unfolding one_long_sentence_def
  by (rule make_chunks_single_sentence; simp add: sentences_of_letters)+

text \<open>
  A text of 35001 letters without a terminator is its own single chunk (with a full stop
  appended), which is again oversized: the chain of calls has no end, whatever the fuel.
\<close>

lemma long_sentence_never_returns:
  assumes "apiKey \<noteq> []"
  shows "getGemini3072DEmbedding fuel apiKey fetch one_long_sentence = None"
proof -
  have big: "utf8_size (one_long_sentence @ [full_stop]) > 35000" "utf8_size one_long_sentence > 35000"
    by (simp_all add: one_long_sentence_def size_letters)
  have chunk: "getGemini3072DEmbedding n apiKey fetch (one_long_sentence @ [full_stop]) = None" for n
  proof (induction n)
    case 0
    show ?case by simp
  next
    case (Suc n)
    show ?case
      using assms big(1) Suc
      by (simp add: getChunked3072DEmbedding_def make_chunks_one_long_sentence(2))
  qed
  show ?thesis
  proof (cases fuel)
    case 0
    then show ?thesis by simp
  next
    case (Suc n)
    then show ?thesis
      using assms big(2) chunk[of n]
      by (simp add: getChunked3072DEmbedding_def make_chunks_one_long_sentence(1))
  qed
qed

subsection \<open>The loop of the chunker\<close>

lemma joined_simps:
  "joined [] = []" "joined [x] = x @ stop_space" "joined (g @ [x]) = joined g @ x @ stop_space"
  by (simp_all add: joined_def)

lemma chunk_step_closes:
  "chunk_step x (cs, cur) =
     (if closes_chunk cur x then (cs @ [trim cur], x @ stop_space) else (cs, cur @ x @ stop_space))"
  by (simp add: chunk_step_def closes_chunk_def Let_def)

lemma not_closes_empty: "\<not> closes_chunk [] x"
  by (simp add: closes_chunk_def)

lemma snoc_decomposition:
  assumes "rest @ [x] = p @ s # t"
  shows "(t = [] \<and> p = rest \<and> s = x) \<or> (\<exists>t'. t = t' @ [x] \<and> rest = p @ s # t')"
proof (cases t rule: rev_cases)
  case Nil
  with assms show ?thesis by simp
next
  case (snoc t' y)
  with assms have "rest @ [x] = (p @ s # t') @ [y]" by simp
  then have "rest = p @ s # t'" "x = y" by (simp_all only: append1_eq_conv)
  with snoc show ?thesis by simp
qed

lemma fold_chunk_step_groups:
  "\<exists>groups rest.
      ss = concat groups @ rest \<and>
      fold chunk_step ss ([], []) = (map (\<lambda>g. trim (joined g)) groups, joined rest) \<and>
      (\<forall>k<length groups. \<exists>s tail.
          concat (drop (Suc k) groups) @ rest = s # tail \<and> closes_chunk (joined (groups ! k)) s) \<and>
      (\<forall>g\<in>set (groups @ [rest]). \<forall>p s t. g = p @ s # t \<longrightarrow> \<not> closes_chunk (joined p) s)"
proof (induction ss rule: rev_induct)
  case Nil
  show ?case
    by (intro exI[of _ "[]"]) (simp add: joined_simps)
next
  case (snoc x ss)
  then obtain groups rest where
    parts: "ss = concat groups @ rest" and
    run: "fold chunk_step ss ([], []) = (map (\<lambda>g. trim (joined g)) groups, joined rest)" and
    closed: "\<forall>k<length groups. \<exists>s tail.
          concat (drop (Suc k) groups) @ rest = s # tail \<and> closes_chunk (joined (groups ! k)) s" and
    greedy: "\<forall>g\<in>set (groups @ [rest]). \<forall>p s t. g = p @ s # t \<longrightarrow> \<not> closes_chunk (joined p) s"
    by blast
  have step: "fold chunk_step (ss @ [x]) ([], []) =
        (if closes_chunk (joined rest) x
         then (map (\<lambda>g. trim (joined g)) groups @ [trim (joined rest)], x @ stop_space)
         else (map (\<lambda>g. trim (joined g)) groups, joined rest @ x @ stop_space))"
    by (simp add: run chunk_step_closes)
  show ?case
  proof (cases "closes_chunk (joined rest) x")
    case True
    let ?groups = "groups @ [rest]"
    have a: "ss @ [x] = concat ?groups @ [x]"
      using parts by simp
    have b: "fold chunk_step (ss @ [x]) ([], []) = (map (\<lambda>g. trim (joined g)) ?groups, joined [x])"
      unfolding step using True by (simp add: joined_simps)
    have c: "\<exists>s tail. concat (drop (Suc k) ?groups) @ [x] = s # tail \<and>
               closes_chunk (joined (?groups ! k)) s" if "k < length ?groups" for k
    proof (cases "k < length groups")
      case True
      with closed obtain s tail where
        "concat (drop (Suc k) groups) @ rest = s # tail" "closes_chunk (joined (groups ! k)) s"
        by blast
      moreover have "concat (drop (Suc k) ?groups) @ [x] = (concat (drop (Suc k) groups) @ rest) @ [x]"
        using True by simp
      ultimately show ?thesis
        using True by (intro exI[of _ s] exI[of _ "tail @ [x]"]) (simp add: nth_append)
    next
      case False
      with that have k: "k = length groups" by simp
      show ?thesis
        using \<open>closes_chunk (joined rest) x\<close> by (intro exI[of _ x] exI[of _ "[]"]) (simp add: k)
    qed
    have d: "\<not> closes_chunk (joined p) s" if "g \<in> set (?groups @ [x] # [])" "g = p @ s # t" for g p s t
    proof (cases "g \<in> set ?groups")
      case True
      with greedy that(2) show ?thesis by auto
    next
      case False
      with that have "[x] = p @ s # t" by simp
      then have "p = []" by (cases p) simp_all
      then show ?thesis by (simp add: joined_simps not_closes_empty)
    qed
    show ?thesis
      using a b c d by (intro exI[of _ ?groups] exI[of _ "[x]"]) blast
  next
    case False
    let ?rest = "rest @ [x]"
    have a: "ss @ [x] = concat groups @ ?rest"
      using parts by simp
    have b: "fold chunk_step (ss @ [x]) ([], []) = (map (\<lambda>g. trim (joined g)) groups, joined ?rest)"
      unfolding step using False by (simp add: joined_simps)
    have c: "\<exists>s tail. concat (drop (Suc k) groups) @ ?rest = s # tail \<and>
               closes_chunk (joined (groups ! k)) s" if "k < length groups" for k
    proof -
      from closed that obtain s tail where
        "concat (drop (Suc k) groups) @ rest = s # tail" "closes_chunk (joined (groups ! k)) s"
        by blast
      then show ?thesis
        by (intro exI[of _ s] exI[of _ "tail @ [x]"]) (simp flip: append_assoc)
    qed
    have d: "\<not> closes_chunk (joined p) s" if "g \<in> set (groups @ [?rest])" "g = p @ s # t" for g p s t
    proof (cases "g \<in> set groups")
      case True
      with greedy that(2) show ?thesis by auto
    next
      case notin: False
      with that have "rest @ [x] = p @ s # t" by simp
      from snoc_decomposition[OF this] show ?thesis
      proof
        assume "t = [] \<and> p = rest \<and> s = x"
        with False show ?thesis by simp
      next
        assume "\<exists>t'. t = t' @ [x] \<and> rest = p @ s # t'"
        with greedy show ?thesis by auto
      qed
    qed
    show ?thesis
      using a b c d by (intro exI[of _ groups] exI[of _ ?rest]) blast
  qed
qed

subsection \<open>The chunked embedding\<close>

lemma make_chunks_groups:
  "\<exists>groups rest.
      sentences_of text = concat groups @ rest \<and>
      make_chunks text =
        map (\<lambda>g. trim (joined g)) groups @
        (if 50 < length (trim (joined rest)) then [trim (joined rest)] else []) \<and>
      (\<forall>k<length groups. \<exists>s tail.
          concat (drop (Suc k) groups) @ rest = s # tail \<and> closes_chunk (joined (groups ! k)) s) \<and>
      (\<forall>g\<in>set (groups @ [rest]). \<forall>p s t. g = p @ s # t \<longrightarrow> \<not> closes_chunk (joined p) s)"
proof -
  from fold_chunk_step_groups[of "sentences_of text"] obtain groups rest where
    parts: "sentences_of text = concat groups @ rest" and
    run: "fold chunk_step (sentences_of text) ([], []) = (map (\<lambda>g. trim (joined g)) groups, joined rest)" and
    closed: "\<forall>k<length groups. \<exists>s tail.
          concat (drop (Suc k) groups) @ rest = s # tail \<and> closes_chunk (joined (groups ! k)) s" and
    greedy: "\<forall>g\<in>set (groups @ [rest]). \<forall>p s t. g = p @ s # t \<longrightarrow> \<not> closes_chunk (joined p) s"
    by blast
  have "make_chunks text =
        map (\<lambda>g. trim (joined g)) groups @
        (if 50 < length (trim (joined rest)) then [trim (joined rest)] else [])"
    unfolding make_chunks_def run by simp
  with parts closed greedy show ?thesis by blast
qed

text \<open>
  C8 (as amended). The chunker partitions the retained sentences of a text, in their order,
  into consecutive groups and a last group; every group but the last is closed in front of
  a sentence with which the current chunk would exceed 30000 bytes while the chunk already
  has more than 100 code units, and no sentence inside a group met that test when it was
  added; the chunks are the closed groups and, when it has more than 50 code units, the
  last group, each written out and trimmed. For a text of more than 35000 bytes whose
  chunks have at most 35000 bytes each, so that each is embedded by one request: when there
  is at least one chunk and every chunk is answered with exactly 3072 finite components,
  the result is the element-wise arithmetic mean of the per-chunk vectors, in exact
  arithmetic; and with two or more chunks, whatever the dimensions of the answers, the
  result has 3072 components, the i-th being the sum of the i-th components of the
  per-chunk vectors (NaN when one of them is missing) divided by the number of chunks.
\<close>

theorem chunked_embedding_is_mean:
  "(\<exists>groups rest.
      sentences_of text0 = concat groups @ rest \<and>
      make_chunks text0 =
        map (\<lambda>g. trim (joined g)) groups @
        (if 50 < length (trim (joined rest)) then [trim (joined rest)] else []) \<and>
      (\<forall>k<length groups. \<exists>s tail.
          concat (drop (Suc k) groups) @ rest = s # tail \<and> closes_chunk (joined (groups ! k)) s) \<and>
      (\<forall>g\<in>set (groups @ [rest]). \<forall>p s t. g = p @ s # t \<longrightarrow> \<not> closes_chunk (joined p) s)) \<and>
   (utf8_size text > 35000 \<and> apiKey \<noteq> [] \<and> make_chunks text \<noteq> [] \<and>
    list_all (\<lambda>c. utf8_size c \<le> 35000 \<and> fetch c = Body (Some (map Num (emb c))) \<and>
                   length (emb c) = 3072) (make_chunks text) \<longrightarrow>
      getGemini3072DEmbedding (Suc (Suc fuel)) apiKey fetch text =
        Some (Returns (Some (map Num (elementwise_mean (map emb (make_chunks text))))))) \<and>
   (utf8_size text2 > 35000 \<and> apiKey2 \<noteq> [] \<and> 2 \<le> length (make_chunks text2) \<and>
    list_all (\<lambda>c. utf8_size c \<le> 35000 \<and> fetch2 c = Body (Some (vec c))) (make_chunks text2) \<longrightarrow>
      getGemini3072DEmbedding (Suc (Suc fuel2)) apiKey2 fetch2 text2 =
        Some (Returns (Some (map (average_at (map vec (make_chunks text2))) [0..<3072]))))"
proof (intro conjI impI)
  show "\<exists>groups rest.
      sentences_of text0 = concat groups @ rest \<and>
      make_chunks text0 =
        map (\<lambda>g. trim (joined g)) groups @
        (if 50 < length (trim (joined rest)) then [trim (joined rest)] else []) \<and>
      (\<forall>k<length groups. \<exists>s tail.
          concat (drop (Suc k) groups) @ rest = s # tail \<and> closes_chunk (joined (groups ! k)) s) \<and>
      (\<forall>g\<in>set (groups @ [rest]). \<forall>p s t. g = p @ s # t \<longrightarrow> \<not> closes_chunk (joined p) s)"
    by (rule make_chunks_groups)
next
  assume h: "utf8_size text > 35000 \<and> apiKey \<noteq> [] \<and> make_chunks text \<noteq> [] \<and>
    list_all (\<lambda>c. utf8_size c \<le> 35000 \<and> fetch c = Body (Some (map Num (emb c))) \<and>
                   length (emb c) = 3072) (make_chunks text)"
  let ?cs = "make_chunks text"
  from h have each: "\<forall>c\<in>set ?cs. utf8_size c \<le> 35000" "\<forall>c\<in>set ?cs. fetch c = Body (Some (map Num (emb c)))"
    "\<forall>xs\<in>set (map emb ?cs). length xs = 3072"
    by (auto simp: list_all_iff)
  have "getGemini3072DEmbedding (Suc (Suc fuel)) apiKey fetch text =
          Some (case collect (map (direct_embedding fetch) ?cs) of
                  Throws message \<Rightarrow> Throws message
                | Returns es \<Rightarrow> average3072DEmbeddings es)"
    using h each(1) by (intro getGemini_one_level) simp_all
  also have "collect (map (direct_embedding fetch) ?cs) = Returns (map (\<lambda>c. Some (map Num (emb c))) ?cs)"
    using each(2) by (rule collect_bodies)
  also have "map (\<lambda>c. Some (map Num (emb c))) ?cs = map (\<lambda>xs. Some (map Num xs)) (map emb ?cs)"
    by simp
  finally show "getGemini3072DEmbedding (Suc (Suc fuel)) apiKey fetch text =
        Some (Returns (Some (map Num (elementwise_mean (map emb (make_chunks text))))))"
    using h each(3) average_is_mean[of "map emb ?cs"] by simp
next
  assume h: "utf8_size text2 > 35000 \<and> apiKey2 \<noteq> [] \<and> 2 \<le> length (make_chunks text2) \<and>
    list_all (\<lambda>c. utf8_size c \<le> 35000 \<and> fetch2 c = Body (Some (vec c))) (make_chunks text2)"
  then show "getGemini3072DEmbedding (Suc (Suc fuel2)) apiKey2 fetch2 text2 =
        Some (Returns (Some (map (average_at (map vec (make_chunks text2))) [0..<3072])))"
    by (intro getGemini_many_chunks) (simp_all add: list_all_iff)
qed

theorem chunked_embedding_is_mean_witness:
  "(\<exists>groups rest.
      sentences_of two_sentences = concat groups @ rest \<and>
      [replicate 20000 letter_a @ [full_stop], replicate 20000 letter_b @ [full_stop]] =
        map (\<lambda>g. trim (joined g)) groups @
        (if 50 < length (trim (joined rest)) then [trim (joined rest)] else [])) \<and>
   getGemini3072DEmbedding 2 ''key'' endpoint_3072 two_sentences =
     Some (Returns (Some (map Num (elementwise_mean
        [length_embedding (replicate 20000 letter_a @ [full_stop]),
         length_embedding (replicate 20000 letter_b @ [full_stop])])))) \<and>
   getGemini3072DEmbedding 2 ''key'' endpoint_3d two_sentences =
     Some (Returns (Some (map (average_at [unit_x, unit_x]) [0..<3072])))"
proof -
  have h: "utf8_size two_sentences > 35000" "''key'' \<noteq> []"
    by (simp_all add: size_two_sentences)
  have s: "utf8_size (replicate 20000 letter_a @ [full_stop]) \<le> 35000"
          "utf8_size (replicate 20000 letter_b @ [full_stop]) \<le> 35000"
    by (simp_all add: size_letters)
  have l: "list_all (\<lambda>c. utf8_size c \<le> 35000 \<and> endpoint_3072 c = Body (Some (map Num (length_embedding c))) \<and>
                   length (length_embedding c) = 3072) (make_chunks two_sentences)"
    using s by (simp add: make_chunks_two_sentences endpoint_3072_def length_embedding_def)
  have l2: "list_all (\<lambda>c. utf8_size c \<le> 35000 \<and> endpoint_3d c = Body (Some unit_x))
              (make_chunks two_sentences)"
    using s by (simp add: make_chunks_two_sentences endpoint_3d_def unit_x_def)
  have n: "make_chunks two_sentences \<noteq> []" "2 \<le> length (make_chunks two_sentences)"
    by (simp_all add: make_chunks_two_sentences)
  note inst = chunked_embedding_is_mean[of two_sentences two_sentences "''key''" endpoint_3072
        length_embedding 0 two_sentences "''key''" endpoint_3d "\<lambda>c. unit_x" 0]
  have a: "\<exists>groups rest.
      sentences_of two_sentences = concat groups @ rest \<and>
      [replicate 20000 letter_a @ [full_stop], replicate 20000 letter_b @ [full_stop]] =
        map (\<lambda>g. trim (joined g)) groups @
        (if 50 < length (trim (joined rest)) then [trim (joined rest)] else [])"
    using inst unfolding make_chunks_two_sentences by blast
  have b: "getGemini3072DEmbedding (Suc (Suc 0)) ''key'' endpoint_3072 two_sentences =
        Some (Returns (Some (map Num (elementwise_mean (map length_embedding (make_chunks two_sentences))))))"
    using inst h l n by blast
  have c: "getGemini3072DEmbedding (Suc (Suc 0)) ''key'' endpoint_3d two_sentences =
        Some (Returns (Some (map (average_at (map (\<lambda>c. unit_x) (make_chunks two_sentences))) [0..<3072])))"
    using inst h l2 n by blast
  from a b c show ?thesis
    by (simp add: make_chunks_two_sentences numeral_2_eq_2 del: getGemini3072DEmbedding.simps upt.simps)
qed

text \<open>
  C8 as stated fails when the per-chunk vectors do not have 3072 components: with an
  endpoint of dimension 3 and two chunks the result has 3072 components, NaN from the
  fourth on, while the mean of the two vectors is (1, 0, 0).
\<close>

theorem pooled_dimension_counterexample:
  "getGemini3072DEmbedding 2 ''key'' endpoint_3d two_sentences =
     Some (Returns (Some (map (average_at [unit_x, unit_x]) [0..<3072]))) \<and>
   map (average_at [unit_x, unit_x]) [0..<3072] ! 3 = NaN \<and>
   map Num (elementwise_mean [unit_x_reals, unit_x_reals]) = unit_x"
proof (intro conjI)
  have "getGemini3072DEmbedding (Suc (Suc 0)) ''key'' endpoint_3d two_sentences =
        Some (Returns (Some (map (average_at (map (\<lambda>c. unit_x) (make_chunks two_sentences))) [0..<3072])))"
    by (intro getGemini_many_chunks)
       (simp_all add: size_two_sentences size_letters make_chunks_two_sentences
          endpoint_3d_def unit_x_def)
  then show "getGemini3072DEmbedding 2 ''key'' endpoint_3d two_sentences =
     Some (Returns (Some (map (average_at [unit_x, unit_x]) [0..<3072])))"
    by (simp add: numeral_2_eq_2 make_chunks_two_sentences del: getGemini3072DEmbedding.simps upt.simps)
  show "map (average_at [unit_x, unit_x]) [0..<3072] ! 3 = NaN"
    by (simp add: average_at_def vec_at_def unit_x_def del: upt.simps)
  show "map Num (elementwise_mean [unit_x_reals, unit_x_reals]) = unit_x"
    by (simp add: elementwise_mean_def upt_rec unit_x_def unit_x_reals_def)
qed

text \<open>
  C10 (as amended). For a text of more than 35000 bytes (in UTF-8), with an API key, all
  of whose chunks have at most 35000 bytes, the computation returns at call depth two,
  whatever fuel is left: it rejects when a request for a chunk fails; without a chunk it
  resolves with \<^verbatim>\<open>null\<close>; with one chunk it resolves with the vector of that chunk; with
  two or more chunks, each answered with a vector, it resolves with a vector of 3072
  components.
\<close>

theorem chunked_embedding_returns:
  "utf8_size text > 35000 \<and> apiKey \<noteq> [] \<and> list_all (\<lambda>c. utf8_size c \<le> 35000) (make_chunks text) \<longrightarrow>
     getGemini3072DEmbedding (Suc (Suc fuel)) apiKey fetch text =
       Some (case collect (map (direct_embedding fetch) (make_chunks text)) of
               Throws message \<Rightarrow> Throws message
             | Returns es \<Rightarrow> average3072DEmbeddings es) \<and>
     (make_chunks text = [] \<longrightarrow>
        getGemini3072DEmbedding (Suc (Suc fuel)) apiKey fetch text = Some (Returns None)) \<and>
     (make_chunks text = [c] \<and> fetch c = Body (Some v) \<longrightarrow>
        getGemini3072DEmbedding (Suc (Suc fuel)) apiKey fetch text = Some (Returns (Some v))) \<and>
     (length (make_chunks text) \<ge> 2 \<and> list_all (\<lambda>c. fetch c = Body (Some (vec c))) (make_chunks text) \<longrightarrow>
        (\<exists>w. getGemini3072DEmbedding (Suc (Suc fuel)) apiKey fetch text = Some (Returns (Some w)) \<and>
             length w = 3072))"
proof (intro impI)
  assume h: "utf8_size text > 35000 \<and> apiKey \<noteq> [] \<and> list_all (\<lambda>c. utf8_size c \<le> 35000) (make_chunks text)"
  let ?cs = "make_chunks text"
  have run: "getGemini3072DEmbedding (Suc (Suc fuel)) apiKey fetch text =
          Some (case collect (map (direct_embedding fetch) ?cs) of
                  Throws message \<Rightarrow> Throws message
                | Returns es \<Rightarrow> average3072DEmbeddings es)"
    using h by (intro getGemini_one_level) (simp_all add: list_all_iff)
  have none: "getGemini3072DEmbedding (Suc (Suc fuel)) apiKey fetch text = Some (Returns None)"
    if "?cs = []"
    unfolding run using that by (simp add: average3072DEmbeddings_def)
  have one: "getGemini3072DEmbedding (Suc (Suc fuel)) apiKey fetch text = Some (Returns (Some v))"
    if "?cs = [c] \<and> fetch c = Body (Some v)"
    unfolding run using that by (simp add: average3072DEmbeddings_def direct_embedding_def)
  have many: "\<exists>w. getGemini3072DEmbedding (Suc (Suc fuel)) apiKey fetch text = Some (Returns (Some w)) \<and>
             length w = 3072"
    if m: "length ?cs \<ge> 2 \<and> list_all (\<lambda>c. fetch c = Body (Some (vec c))) ?cs"
  proof -
    have "getGemini3072DEmbedding (Suc (Suc fuel)) apiKey fetch text =
        Some (Returns (Some (map (average_at (map vec ?cs)) [0..<3072])))"
      using h m by (intro getGemini_many_chunks) (simp_all add: list_all_iff)
    then show ?thesis by simp
  qed
  show "getGemini3072DEmbedding (Suc (Suc fuel)) apiKey fetch text =
       Some (case collect (map (direct_embedding fetch) (make_chunks text)) of
               Throws message \<Rightarrow> Throws message
             | Returns es \<Rightarrow> average3072DEmbeddings es) \<and>
     (make_chunks text = [] \<longrightarrow>
        getGemini3072DEmbedding (Suc (Suc fuel)) apiKey fetch text = Some (Returns None)) \<and>
     (make_chunks text = [c] \<and> fetch c = Body (Some v) \<longrightarrow>
        getGemini3072DEmbedding (Suc (Suc fuel)) apiKey fetch text = Some (Returns (Some v))) \<and>
     (length (make_chunks text) \<ge> 2 \<and> list_all (\<lambda>c. fetch c = Body (Some (vec c))) (make_chunks text) \<longrightarrow>
        (\<exists>w. getGemini3072DEmbedding (Suc (Suc fuel)) apiKey fetch text = Some (Returns (Some w)) \<and>
             length w = 3072))"
    using run none one many by blast
qed

theorem chunked_embedding_returns_witness:
  "getGemini3072DEmbedding 2 ''key'' endpoint_3072 only_stops = Some (Returns None) \<and>
   getGemini3072DEmbedding 2 ''key'' endpoint_3d padded_sentence =
     Some (Returns (Some [Num 1, Num 0, Num 0])) \<and>
   (\<exists>w. getGemini3072DEmbedding 2 ''key'' endpoint_3072 two_sentences = Some (Returns (Some w)) \<and>
        length w = 3072)"
proof -
  have big: "utf8_size only_stops > 35000" "utf8_size padded_sentence > 35000"
            "utf8_size two_sentences > 35000"
    by (simp_all add: only_stops_def padded_sentence_def size_two_sentences size_letters)
  have key: "''key'' \<noteq> []" by simp
  have a: "list_all (\<lambda>c. utf8_size c \<le> 35000) (make_chunks only_stops)"
          "list_all (\<lambda>c. utf8_size c \<le> 35000) (make_chunks padded_sentence)"
          "list_all (\<lambda>c. utf8_size c \<le> 35000) (make_chunks two_sentences)"
    by (simp_all add: make_chunks_only_stops make_chunks_padded_sentence make_chunks_two_sentences
          size_letters)
  have one: "make_chunks padded_sentence = [replicate 30000 letter_a @ [full_stop]] \<and>
             endpoint_3d (replicate 30000 letter_a @ [full_stop]) = Body (Some [Num 1, Num 0, Num 0])"
    by (simp add: make_chunks_padded_sentence endpoint_3d_def)
  have two: "length (make_chunks two_sentences) \<ge> 2 \<and>
             list_all (\<lambda>c. endpoint_3072 c = Body (Some (map Num (length_embedding c))))
               (make_chunks two_sentences)"
    by (simp add: make_chunks_two_sentences endpoint_3072_def)
  have r0: "getGemini3072DEmbedding 2 ''key'' endpoint_3072 only_stops = Some (Returns None)"
    using big(1) key a(1) make_chunks_only_stops
      chunked_embedding_returns[of only_stops "''key''" 0 endpoint_3072]
    by (simp only: numeral_2_eq_2) blast
  have r1: "getGemini3072DEmbedding 2 ''key'' endpoint_3d padded_sentence =
     Some (Returns (Some [Num 1, Num 0, Num 0]))"
    using big(2) key a(2) one
      chunked_embedding_returns[of padded_sentence "''key''" 0 endpoint_3d
        "replicate 30000 letter_a @ [full_stop]" "[Num 1, Num 0, Num 0]"]
    by (simp only: numeral_2_eq_2) blast
  have r2: "\<exists>w. getGemini3072DEmbedding 2 ''key'' endpoint_3072 two_sentences = Some (Returns (Some w)) \<and>
        length w = 3072"
    using big(3) key a(3) two
      chunked_embedding_returns[of two_sentences "''key''" 0 endpoint_3072 _ _
        "\<lambda>c. map Num (length_embedding c)"]
    by (simp only: numeral_2_eq_2) blast
  from r0 r1 r2 show ?thesis by blast
qed

text \<open>
  C10 as stated fails on an oversized text without a sentence of more than 20 code units:
  no chunk is produced and the call resolves with \<^verbatim>\<open>null\<close>.
\<close>

theorem chunked_embedding_null_counterexample:
  "utf8_size only_stops > 35000 \<and>
   getGemini3072DEmbedding 2 ''key'' endpoint_3072 only_stops = Some (Returns None)"
proof
  show big: "utf8_size only_stops > 35000"
    by (simp add: only_stops_def size_letters)
  have "getGemini3072DEmbedding (Suc (Suc 0)) ''key'' endpoint_3072 only_stops =
          Some (case collect (map (direct_embedding endpoint_3072) (make_chunks only_stops)) of
                  Throws message \<Rightarrow> Throws message
                | Returns es \<Rightarrow> average3072DEmbeddings es)"
    using big by (intro getGemini_one_level) (simp_all add: make_chunks_only_stops)
  then show "getGemini3072DEmbedding 2 ''key'' endpoint_3072 only_stops = Some (Returns None)"
    by (simp add: numeral_2_eq_2 make_chunks_only_stops average3072DEmbeddings_def
          del: getGemini3072DEmbedding.simps)
qed

end
